theory Spec2Isabelle
  imports Complex_Main "HOL-Library.Log_Nat"
begin

section \<open>Configuration (config/settings.py)\<close>

text \<open>
  The values \<^verbatim>\<open>settings.py\<close> and \<^verbatim>\<open>email_sender.py\<close> read from the process
  environment, with their defaults, and the constants they fix.
\<close>

record settings =
  RED_EMAIL_TIMEOUT_IN_SECONDS :: int
  ORANGE_EMAIL_TIMEOUT_IN_SECONDS :: int
  YELLOW_EMAIL_TIMEOUT_IN_SECONDS :: int
  YELLOW_SUSTENANCE_PERIOD :: int
  ORANGE_SUSTENANCE_PERIOD :: int
  LOGGER_EMAILS :: "string list"
  TEST_EMAIL :: string
  USE_TEST_EMAIL :: bool

definition default_settings :: settings where
  "default_settings =
     \<lparr>RED_EMAIL_TIMEOUT_IN_SECONDS = 300,
      ORANGE_EMAIL_TIMEOUT_IN_SECONDS = 1800,
      YELLOW_EMAIL_TIMEOUT_IN_SECONDS = 3600,
      YELLOW_SUSTENANCE_PERIOD = 10,
      ORANGE_SUSTENANCE_PERIOD = 5,
      LOGGER_EMAILS = [''connect@klvin.ai''],
      TEST_EMAIL = ''test@example.com'',
      USE_TEST_EMAIL = False\<rparr>"

definition BREACH_TIMEOUT_IN_SECONDS :: "settings \<Rightarrow> (string \<rightharpoonup> int)" where
  "BREACH_TIMEOUT_IN_SECONDS cfg =
     [''red'' \<mapsto> RED_EMAIL_TIMEOUT_IN_SECONDS cfg,
      ''orange'' \<mapsto> ORANGE_EMAIL_TIMEOUT_IN_SECONDS cfg,
      ''yellow'' \<mapsto> YELLOW_EMAIL_TIMEOUT_IN_SECONDS cfg]"

definition QUEUE_SIZE :: int where
  "QUEUE_SIZE = 100"

definition THRESHOLD_CACHE_TTL :: int where
  "THRESHOLD_CACHE_TTL = 3600"

definition EMAIL_CACHE_TTL :: int where
  "EMAIL_CACHE_TTL = 86400"

definition MAX_EMAIL_RETRY_ATTEMPTS :: int where
  "MAX_EMAIL_RETRY_ATTEMPTS = 3"

section \<open>Python values, errors and the wall clock\<close>

text \<open>
  A sensor value and a timestamp arrive as JSON: an integer, a number with a fraction or an
  exponent (a Python float; the finite ones are modelled, as reals), a string, a boolean,
  null, an array or an object.
\<close>

datatype py_value =
    PyInt int
  | PyFloat real
  | PyStr string
  | PyBool bool
  | PyNone
  | PyList "py_value list"
  | PyDict "(string \<times> py_value) list"

text \<open>The exceptions the modelled code can raise, as values.\<close>

datatype error =
    ValueError string
  | TypeError
  | KeyError string
  | OverflowError
  | DataNotSetError string string
  | Full

text \<open>
  \<^verbatim>\<open>str.lower()\<close> on ASCII text: the upper-case letters are mapped to lower case, every
  other character is kept.
\<close>

definition lower_char :: "char \<Rightarrow> char" where
  "lower_char ch =
     (case map_of (zip ''ABCDEFGHIJKLMNOPQRSTUVWXYZ'' ''abcdefghijklmnopqrstuvwxyz'') ch of
        None \<Rightarrow> ch
      | Some l \<Rightarrow> l)"

definition lower :: "string \<Rightarrow> string" where
  "lower s = map lower_char s"

text \<open>
  \<^verbatim>\<open>time.time()\<close>: the process reads the wall clock many times. The clock is the sequence
  of values these reads return (\<open>readings\<close>) and the number of reads made so far
  (\<open>ticks\<close>); every read returns the next value.
\<close>

record clock =
  readings :: "nat \<Rightarrow> real"
  ticks :: nat

definition time_time :: "clock \<Rightarrow> real \<times> clock" where
  "time_time c = (readings c (ticks c), c\<lparr>ticks := Suc (ticks c)\<rparr>)"

section \<open>Breach objects (monitoring/threshold\_checker.py)\<close>

record breach_object =
  device_id :: string
  sensor_id :: string
  factory_name :: string
  zone_name :: string
  machine_name :: string
  sensor_name :: string
  sensor_value :: py_value
  timestamp :: py_value
  threshold_type :: string
  threshold_value :: real

section \<open>Device state tracking (monitoring/device\_state.py)\<close>

text \<open>
  The per-level entry \<^verbatim>\<open>{"above_threshold", "since_timestamp", "breach"}\<close> and the
  per-sensor dictionary, which always has exactly the keys \<^verbatim>\<open>"yellow"\<close> and
  \<^verbatim>\<open>"orange"\<close> (it is only ever created by \<^verbatim>\<open>get_sensor_state\<close>).
\<close>

record level_state =
  above_threshold :: bool
  since_timestamp :: "real option"
  breach :: "breach_object option"

record sensor_state =
  yellow :: level_state
  orange :: level_state

definition null_level_state :: level_state where
  "null_level_state = \<lparr>above_threshold = False, since_timestamp = None, breach = None\<rparr>"

definition new_sensor_state :: sensor_state where
  "new_sensor_state = \<lparr>yellow = null_level_state, orange = null_level_state\<rparr>"

text \<open>\<^verbatim>\<open>sensor_state[key]\<close>: \<open>None\<close> stands for Python's KeyError.\<close>

definition getitem :: "sensor_state \<Rightarrow> string \<Rightarrow> level_state option" where
  "getitem ss key =
     (if key = ''yellow'' then Some (yellow ss)
      else if key = ''orange'' then Some (orange ss)
      else None)"

text \<open>
  Assignment to the fields of \<^verbatim>\<open>sensor_state[key]\<close>. The code only writes to an entry
  it has just read, so the key is one of the two.
\<close>

definition setitem :: "sensor_state \<Rightarrow> string \<Rightarrow> level_state \<Rightarrow> sensor_state" where
  "setitem ss key v =
     (if key = ''yellow'' then ss\<lparr>yellow := v\<rparr>
      else if key = ''orange'' then ss\<lparr>orange := v\<rparr>
      else ss)"

record DeviceStateManager =
  states :: "string \<rightharpoonup> (string \<rightharpoonup> sensor_state)"
  last_access :: "string \<rightharpoonup> real"

definition new_DeviceStateManager :: DeviceStateManager where
  "new_DeviceStateManager = \<lparr>states = Map.empty, last_access = Map.empty\<rparr>"

text \<open>
  \<^verbatim>\<open>get_sensor_state\<close> creates the device and sensor entries when they are missing,
  refreshes \<^verbatim>\<open>last_access\<close> and returns the sensor's dictionary.
\<close>

definition get_sensor_state ::
  "clock \<Rightarrow> DeviceStateManager \<Rightarrow> string \<Rightarrow> string
     \<Rightarrow> sensor_state \<times> clock \<times> DeviceStateManager" where
  "get_sensor_state c m did sid =
     (let (sensors, c1, la1) =
            (case states m did of
               None \<Rightarrow>
                 (let (t, c') = time_time c in (Map.empty, c', (last_access m)(did \<mapsto> t)))
             | Some sensors \<Rightarrow> (sensors, c, last_access m));
          (ss, sensors') =
            (case sensors sid of
               None \<Rightarrow> (new_sensor_state, sensors(sid \<mapsto> new_sensor_state))
             | Some ss \<Rightarrow> (ss, sensors));
          (t, c2) = time_time c1
      in (ss, c2, \<lparr>states = (states m)(did \<mapsto> sensors'), last_access = la1(did \<mapsto> t)\<rparr>))"

text \<open>
  The dictionary \<^verbatim>\<open>get_sensor_state\<close> returns is the object stored at
  \<^verbatim>\<open>states[device_id][sensor_id]\<close>; the callers mutate it in place. \<open>write_back\<close> is
  that mutation seen from the manager.
\<close>

definition write_back ::
  "DeviceStateManager \<Rightarrow> string \<Rightarrow> string \<Rightarrow> sensor_state \<Rightarrow> DeviceStateManager" where
  "write_back m did sid ss =
     (case states m did of
        None \<Rightarrow> m
      | Some sensors \<Rightarrow> m\<lparr>states := (states m)(did \<mapsto> sensors(sid \<mapsto> ss))\<rparr>)"

definition update_sensor_state ::
  "clock \<Rightarrow> DeviceStateManager \<Rightarrow> string \<Rightarrow> string \<Rightarrow> string \<Rightarrow> bool
     \<Rightarrow> breach_object option \<Rightarrow> (error + sensor_state) \<times> clock \<times> DeviceStateManager" where
  "update_sensor_state c m did sid ttype is_above_threshold br =
     (let tt = lower ttype in
      if tt \<noteq> ''yellow'' \<and> tt \<noteq> ''orange'' then (Inl (ValueError tt), c, m)
      else
        (let (ss, c1, m1) = get_sensor_state c m did sid;
             (current_time, c2) = time_time c1
         in case getitem ss tt of
              None \<Rightarrow> (Inl (KeyError tt), c2, m1)
            | Some state \<Rightarrow>
                (let state' =
                       (if is_above_threshold then
                          (if \<not> above_threshold state
                           then \<lparr>above_threshold = True,
                                 since_timestamp = Some current_time,
                                 breach = br\<rparr>
                           else state)
                        else \<lparr>above_threshold = False, since_timestamp = None, breach = None\<rparr>);
                     ss' = setitem ss tt state'
                 in (Inr ss', c2, write_back m1 did sid ss'))))"

definition check_sustained_breach ::
  "clock \<Rightarrow> DeviceStateManager \<Rightarrow> string \<Rightarrow> string \<Rightarrow> string \<Rightarrow> int
     \<Rightarrow> (error + bool \<times> breach_object option) \<times> clock \<times> DeviceStateManager" where
  "check_sustained_breach c m did sid ttype required_duration =
     (let tt = lower ttype;
          (ss, c1, m1) = get_sensor_state c m did sid;
          (current_time, c2) = time_time c1
      in case getitem ss tt of
           None \<Rightarrow> (Inl (KeyError tt), c2, m1)
         | Some state \<Rightarrow>
             if above_threshold state
                \<and> (case since_timestamp state of
                      None \<Rightarrow> False
                    | Some since \<Rightarrow> current_time - since \<ge> real_of_int required_duration)
             then (Inr (True, breach state), c2,
                   write_back m1 did sid (setitem ss tt null_level_state))
             else (Inr (False, None), c2, m1))"

section \<open>The store and its cache (utils/db.py, utils/cache.py, utils/db\_interface.py)\<close>

text \<open>
  What the process takes from outside the repository is a parameter of the model:
  the row \<^verbatim>\<open>fetchone()\<close> returns for the thresholds query, the rows \<^verbatim>\<open>fetchall()\<close>
  returns for the entity-names query, Python's \<^verbatim>\<open>float()\<close> on a string, and what the
  SMTP server does with the k-th message handed to it. A query of the store is taken to
  return; the thresholds of a sensor are three numbers.
\<close>

datatype smtp_result = Delivered | Refused_recipients | Smtp_exception

record environment =
  thresholds_row :: "string \<Rightarrow> string \<Rightarrow> (real \<times> real \<times> real) option"
  entity_rows :: "string \<Rightarrow> (string \<times> string \<times> string) list"
  float_of_str :: "string \<Rightarrow> real option"
  smtp_server :: "nat \<Rightarrow> smtp_result"

definition original_get_thresholds ::
  "environment \<Rightarrow> string \<Rightarrow> string \<Rightarrow> error + real \<times> real \<times> real" where
  "original_get_thresholds env did sid =
     (case thresholds_row env did sid of
        Some result \<Rightarrow> Inr result
      | None \<Rightarrow> Inl (DataNotSetError did sid))"

definition get_entity_names :: "environment \<Rightarrow> string \<Rightarrow> string \<times> string \<times> string" where
  "get_entity_names env did =
     (case entity_rows env did of
        [] \<Rightarrow> (''Unknown Factory'', ''Unknown Zone'', ''Unknown Machine'')
      | row # _ \<Rightarrow> row)"

text \<open>The live \<^verbatim>\<open>get_emails\<close> of db.py: one address, whatever the device and the level.\<close>

definition original_get_emails :: "string \<Rightarrow> string \<Rightarrow> string" where
  "original_get_emails did ttype = ''sudhamshusuri.2015@gmail.com''"

text \<open>
  The two caches map a key to the value and the time it was stored. A cached value is
  returned while it is younger than the TTL; otherwise the store is asked and the answer
  cached. A lookup that raises stores nothing.
\<close>

type_synonym thresholds_cache = "string \<times> string \<rightharpoonup> (real \<times> real \<times> real) \<times> real"
type_synonym emails_cache = "string \<times> string \<rightharpoonup> string \<times> real"

definition get_thresholds ::
  "environment \<Rightarrow> clock \<Rightarrow> thresholds_cache \<Rightarrow> string \<Rightarrow> string
     \<Rightarrow> (error + real \<times> real \<times> real) \<times> clock \<times> thresholds_cache" where
  "get_thresholds env c cache did sid =
     (let cache_key = (did, sid);
          (hit, c1) =
            (case cache cache_key of
               None \<Rightarrow> (None, c)
             | Some (value, stored) \<Rightarrow>
                 (let (t, c') = time_time c
                  in (if t - stored < real_of_int THRESHOLD_CACHE_TTL then Some value else None, c')))
      in case hit of
           Some value \<Rightarrow> (Inr value, c1, cache)
         | None \<Rightarrow>
             (case original_get_thresholds env did sid of
                Inl e \<Rightarrow> (Inl e, c1, cache)
              | Inr thresholds \<Rightarrow>
                  (let (t, c2) = time_time c1
                   in (Inr thresholds, c2, cache(cache_key \<mapsto> (thresholds, t))))))"

definition get_emails ::
  "clock \<Rightarrow> emails_cache \<Rightarrow> string \<Rightarrow> string \<Rightarrow> string \<times> clock \<times> emails_cache" where
  "get_emails c cache did ttype =
     (let cache_key = (did, ttype);
          (hit, c1) =
            (case cache cache_key of
               None \<Rightarrow> (None, c)
             | Some (value, stored) \<Rightarrow>
                 (let (t, c') = time_time c
                  in (if t - stored < real_of_int EMAIL_CACHE_TTL then Some value else None, c')))
      in case hit of
           Some value \<Rightarrow> (value, c1, cache)
         | None \<Rightarrow>
             (let emails = original_get_emails did ttype;
                  (t, c2) = time_time c1
              in (emails, c2, cache(cache_key \<mapsto> (emails, t)))))"

section \<open>Bounded queues (Python's queue.Queue)\<close>

text \<open>
  \<^verbatim>\<open>put(item, block=False)\<close> raises \<^verbatim>\<open>queue.Full\<close> when the queue has a positive
  \<open>maxsize\<close> and holds that many items. The breach queues hold breach objects and the
  drainers' end-of-batch marker \<open>None\<close>.
\<close>

record 'a Queue =
  maxsize :: int
  items :: "'a list"

definition new_Queue :: "int \<Rightarrow> 'a Queue" where
  "new_Queue n = \<lparr>maxsize = n, items = []\<rparr>"

definition put_nowait :: "'a Queue \<Rightarrow> 'a \<Rightarrow> error + 'a Queue" where
  "put_nowait q item =
     (if 0 < maxsize q \<and> maxsize q \<le> int (length (items q)) then Inl Full
      else Inr (q\<lparr>items := items q @ [item]\<rparr>))"

subsection \<open>Observations of the device state\<close>

text \<open>
  What the manager holds for a device and for a sensor. A sensor that has no entry yet is
  read as the all-null entry that \<open>get_sensor_state\<close> creates on first access.
\<close>

definition sensors_of :: "DeviceStateManager \<Rightarrow> string \<Rightarrow> (string \<rightharpoonup> sensor_state)" where
  "sensors_of m did = (case states m did of None \<Rightarrow> Map.empty | Some sensors \<Rightarrow> sensors)"

definition sensor_view :: "DeviceStateManager \<Rightarrow> string \<Rightarrow> string \<Rightarrow> sensor_state" where
  "sensor_view m did sid = (case sensors_of m did sid of None \<Rightarrow> new_sensor_state | Some ss \<Rightarrow> ss)"

definition level_view :: "DeviceStateManager \<Rightarrow> string \<Rightarrow> string \<Rightarrow> string \<Rightarrow> level_state option" where
  "level_view m did sid level = getitem (sensor_view m did sid) level"

text \<open>
  The SensorState invariant: a level that is not above its threshold has no start time and
  no pending breach; a level that is above has both.
\<close>

definition level_state_ok :: "level_state \<Rightarrow> bool" where
  "level_state_ok st \<longleftrightarrow>
     (\<not> above_threshold st \<longrightarrow> since_timestamp st = None \<and> breach st = None) \<and>
     (above_threshold st \<longrightarrow> since_timestamp st \<noteq> None \<and> breach st \<noteq> None)"

definition SensorState_invariant :: "DeviceStateManager \<Rightarrow> bool" where
  "SensorState_invariant m \<longleftrightarrow>
     (\<forall>did sensors sid ss. states m did = Some sensors \<longrightarrow> sensors sid = Some ss \<longrightarrow>
        level_state_ok (yellow ss) \<and> level_state_ok (orange ss))"

section \<open>Rate limiting (utils/rate\_limiter.py)\<close>

record RateLimiter =
  history :: "string \<times> string \<times> string \<rightharpoonup> real"

definition new_RateLimiter :: RateLimiter where
  "new_RateLimiter = \<lparr>history = Map.empty\<rparr>"

definition should_send ::
  "settings \<Rightarrow> clock \<Rightarrow> RateLimiter \<Rightarrow> string \<Rightarrow> string \<Rightarrow> string
     \<Rightarrow> bool \<times> clock \<times> RateLimiter" where
  "should_send cfg c rl did sid ttype =
     (let tt = lower ttype;
          key = (did, sid, tt);
          (current_time, c1) = time_time c
      in case history rl key of
           None \<Rightarrow> (True, c1, rl\<lparr>history := (history rl)(key \<mapsto> current_time)\<rparr>)
         | Some last_sent \<Rightarrow>
             (let timeout = (case BREACH_TIMEOUT_IN_SECONDS cfg tt of
                               None \<Rightarrow> 3600
                             | Some t \<Rightarrow> t)
              in if current_time - last_sent \<ge> real_of_int timeout
                 then (True, c1, rl\<lparr>history := (history rl)(key \<mapsto> current_time)\<rparr>)
                 else (False, c1, rl)))"

section \<open>Log lines\<close>

text \<open>
  The lines written through \<^verbatim>\<open>logger\<close> at level INFO and above (the level
  \<^verbatim>\<open>utils/logging.py\<close> configures) and through \<^verbatim>\<open>log_to_file\<close>, with the data they
  carry.
\<close>

record email_data =
  recipients :: "string list"
  subject :: string
  content :: string
  attempt :: "int option"
  next_try :: "real option"

datatype log_entry =
    Failed_to_get_thresholds string string error
  | Red_threshold_breach_detected string string real
  | Sustained_breach_detected string string string
  | Failed_to_queue_breach string error
  | Error_in_threshold_check error
  | Inside_send_email
  | Sending_email_to "string list"
  | Using_test_email_address string
  | Email_sent_successfully
  | Partial_email_delivery_failure
  | Failed_to_send_email
  | Email_queued_for_retry int
  | Email_failed_after_attempts email_data
  | Email_permanently_failed email_data
  | Error_in_email_retry_thread error
  | Inside_process_breaches
  | Processing_breaches nat
  | No_breaches_passed_rate_limiting string
  | No_emails_to_send
  | Sending_emails_to_recipients nat
  | Sending_email_with_breaches string nat

section \<open>Threshold detection (monitoring/threshold\_checker.py)\<close>

text \<open>
  A reading, with the three keys the classifier reads from it. The value is whatever the
  publisher sent.
\<close>

record sensor_reading =
  reading_sensor_id :: string
  reading_sensor_type :: string
  reading_value :: py_value

text \<open>The \<^verbatim>\<open>readings\<close> of an event: one reading or a list of readings.\<close>

datatype readings = One sensor_reading | Many "sensor_reading list"

record event =
  event_device_id :: string
  event_time :: py_value
  event_readings :: readings

text \<open>
  \<^verbatim>\<open>float(i)\<close> for a Python integer: exact up to \<open>2^53\<close>; a larger integer is rounded to
  53 significant bits, ties to even, and raises OverflowError when the rounded value does
  not fit a double (\<open>2^1024\<close> or more).
\<close>

definition float_of_int :: "int \<Rightarrow> error + real" where
  "float_of_int i =
     (let a = \<bar>i\<bar>
      in if a \<le> 2 ^ 53 then Inr (real_of_int i)
         else
           (let e = nat (bitlen a - 53);
                q = a div 2 ^ e;
                r = a mod 2 ^ e;
                half = 2 ^ (e - 1);
                q' = (if half < r \<or> (r = half \<and> odd q) then q + 1 else q);
                m = q' * 2 ^ e
            in if 2 ^ 1024 \<le> m then Inl OverflowError else Inr (real_of_int (sgn i * m))))"

text \<open>
  \<^verbatim>\<open>float(value)\<close>: an integer converts as above, a float is itself, a string may
  convert (the parser is the environment's), a boolean is the integer 0 or 1; null, a list
  and a dict raise TypeError.
\<close>

definition py_float :: "environment \<Rightarrow> py_value \<Rightarrow> error + real" where
  "py_float env v =
     (case v of
        PyInt i \<Rightarrow> float_of_int i
      | PyFloat x \<Rightarrow> Inr x
      | PyStr s \<Rightarrow> (case float_of_str env s of None \<Rightarrow> Inl (ValueError s) | Some x \<Rightarrow> Inr x)
      | PyBool b \<Rightarrow> Inr (if b then 1 else 0)
      | PyNone \<Rightarrow> Inl TypeError
      | PyList xs \<Rightarrow> Inl TypeError
      | PyDict kvs \<Rightarrow> Inl TypeError)"

text \<open>The breach object: the entity names come from the store, the type is lower-cased.\<close>

definition make_breach_object ::
  "environment \<Rightarrow> string \<Rightarrow> sensor_reading \<Rightarrow> py_value \<Rightarrow> string \<Rightarrow> real \<Rightarrow> breach_object" where
  "make_breach_object env did r ts ttype tvalue =
     (let (factory, zone, machine) = get_entity_names env did
      in \<lparr>device_id = did,
          sensor_id = reading_sensor_id r,
          factory_name = factory,
          zone_name = zone,
          machine_name = machine,
          sensor_name = reading_sensor_type r,
          sensor_value = reading_value r,
          timestamp = ts,
          threshold_type = lower ttype,
          threshold_value = tvalue\<rparr>)"

text \<open>
  The state the classifier works on: the clock, the module's device state manager, the
  thresholds cache, the two queues it is handed and the log.
\<close>

record checker =
  clk :: clock
  device_state_manager :: DeviceStateManager
  threshold_cache :: thresholds_cache
  critical_queue :: "breach_object option Queue"
  warning_queue :: "breach_object option Queue"
  logged :: "log_entry list"

text \<open>
  The orange and the yellow branch of the loop body are the same code with another level,
  threshold and sustenance period: observe the level as above, ask whether it has been
  sustained, and queue the stored breach when it has. An exception leaves the body
  (\<open>Some e\<close>).
\<close>

definition sustained_branch ::
  "environment \<Rightarrow> checker \<Rightarrow> string \<Rightarrow> sensor_reading \<Rightarrow> py_value \<Rightarrow> string \<Rightarrow> real \<Rightarrow> int
     \<Rightarrow> error option \<times> checker" where
  "sustained_branch env s did r ts level threshold period =
     (let sid = reading_sensor_id r;
          br = make_breach_object env did r ts level threshold
      in case update_sensor_state (clk s) (device_state_manager s) did sid level True (Some br) of
           (Inl e, c1, m1) \<Rightarrow> (Some e, s\<lparr>clk := c1, device_state_manager := m1\<rparr>)
         | (Inr _, c1, m1) \<Rightarrow>
             (case check_sustained_breach c1 m1 did sid level period of
                (Inl e, c2, m2) \<Rightarrow> (Some e, s\<lparr>clk := c2, device_state_manager := m2\<rparr>)
              | (Inr (is_sustained, stored), c2, m2) \<Rightarrow>
                  (let s2 = s\<lparr>clk := c2, device_state_manager := m2\<rparr>
                   in if is_sustained then
                        (case stored of
                           None \<Rightarrow> (None, s2)
                         | Some b \<Rightarrow>
                             (case put_nowait (warning_queue s2) (Some b) of
                                Inr q \<Rightarrow>
                                  (None, s2\<lparr>warning_queue := q,
                                             logged := logged s2
                                               @ [Sustained_breach_detected level did sid]\<rparr>)
                              | Inl e \<Rightarrow>
                                  (None, s2\<lparr>logged := logged s2 @ [Failed_to_queue_breach level e]\<rparr>)))
                      else (None, s2))))"

text \<open>Below all thresholds: both levels are reset.\<close>

definition reset_branch :: "checker \<Rightarrow> string \<Rightarrow> string \<Rightarrow> error option \<times> checker" where
  "reset_branch s did sid =
     (case update_sensor_state (clk s) (device_state_manager s) did sid ''yellow'' False None of
        (Inl e, c1, m1) \<Rightarrow> (Some e, s\<lparr>clk := c1, device_state_manager := m1\<rparr>)
      | (Inr _, c1, m1) \<Rightarrow>
          (case update_sensor_state c1 m1 did sid ''orange'' False None of
             (Inl e, c2, m2) \<Rightarrow> (Some e, s\<lparr>clk := c2, device_state_manager := m2\<rparr>)
           | (Inr _, c2, m2) \<Rightarrow> (None, s\<lparr>clk := c2, device_state_manager := m2\<rparr>)))"

text \<open>
  The body of the loop over the readings. The conversion of the value stands outside every
  \<^verbatim>\<open>try\<close> of the loop, so a value that does not convert raises out of the body; a failed
  thresholds lookup is logged and the body ends (\<^verbatim>\<open>continue\<close>).
\<close>

definition check_reading ::
  "environment \<Rightarrow> settings \<Rightarrow> checker \<Rightarrow> string \<Rightarrow> sensor_reading \<Rightarrow> py_value
     \<Rightarrow> error option \<times> checker" where
  "check_reading env cfg s did r ts =
     (let sid = reading_sensor_id r
      in case py_float env (reading_value r) of
           Inl e \<Rightarrow> (Some e, s)
         | Inr value \<Rightarrow>
             (case get_thresholds env (clk s) (threshold_cache s) did sid of
                (Inl e, c1, cache1) \<Rightarrow>
                  (None, s\<lparr>clk := c1, threshold_cache := cache1,
                           logged := logged s @ [Failed_to_get_thresholds did sid e]\<rparr>)
              | (Inr (threshold_yellow, threshold_orange, threshold_red), c1, cache1) \<Rightarrow>
                  (let s1 = s\<lparr>clk := c1, threshold_cache := cache1\<rparr>
                   in if value \<ge> threshold_red then
                        (let br = make_breach_object env did r ts ''red'' threshold_red
                         in case put_nowait (critical_queue s1) (Some br) of
                              Inr q \<Rightarrow>
                                (None, s1\<lparr>critical_queue := q,
                                           logged := logged s1
                                             @ [Red_threshold_breach_detected did sid value]\<rparr>)
                            | Inl e \<Rightarrow>
                                (None, s1\<lparr>logged := logged s1 @ [Failed_to_queue_breach ''red'' e]\<rparr>))
                      else if value \<ge> threshold_orange then
                        sustained_branch env s1 did r ts ''orange'' threshold_orange
                          (ORANGE_SUSTENANCE_PERIOD cfg)
                      else if value \<ge> threshold_yellow then
                        sustained_branch env s1 did r ts ''yellow'' threshold_yellow
                          (YELLOW_SUSTENANCE_PERIOD cfg)
                      else reset_branch s1 did sid)))"

text \<open>The loop: an exception raised by one reading ends it.\<close>

fun check_readings ::
  "environment \<Rightarrow> settings \<Rightarrow> checker \<Rightarrow> string \<Rightarrow> sensor_reading list \<Rightarrow> py_value
     \<Rightarrow> error option \<times> checker" where
  "check_readings env cfg s did [] ts = (None, s)"
| "check_readings env cfg s did (r # rs) ts =
     (case check_reading env cfg s did r ts of
        (Some e, s') \<Rightarrow> (Some e, s')
      | (None, s') \<Rightarrow> check_readings env cfg s' did rs ts)"

definition check_thresholds_against_data ::
  "environment \<Rightarrow> settings \<Rightarrow> checker \<Rightarrow> string \<Rightarrow> readings \<Rightarrow> py_value
     \<Rightarrow> error option \<times> checker" where
  "check_thresholds_against_data env cfg s did device_readings ts =
     check_readings env cfg s did
       (case device_readings of One r \<Rightarrow> [r] | Many rs \<Rightarrow> rs) ts"

text \<open>The entry point catches whatever the loop raises and logs it.\<close>

definition run_threshold_check :: "environment \<Rightarrow> settings \<Rightarrow> checker \<Rightarrow> event \<Rightarrow> checker" where
  "run_threshold_check env cfg s data =
     (case check_thresholds_against_data env cfg s (event_device_id data) (event_readings data)
             (event_time data) of
        (Some e, s') \<Rightarrow> s'\<lparr>logged := logged s' @ [Error_in_threshold_check e]\<rparr>
      | (None, s') \<Rightarrow> s')"

section \<open>Email sending (notification/email\_sender.py)\<close>

text \<open>
  \<^verbatim>\<open>email_formatter.py\<close> renders the subject and the HTML body of an email from the
  breaches it reports. No property below depends on the rendering, so the two functions
  are parameters.
\<close>

record formatter =
  create_email_subject :: "breach_object list \<Rightarrow> string"
  create_html_content :: "breach_object list \<Rightarrow> string"

text \<open>
  A send attempt, as handed to the SMTP server: the recipients of the \<^verbatim>\<open>To\<close> header,
  the subject and the body.
\<close>

record smtp_message =
  all_recipients :: "string list"
  message_subject :: string
  message_content :: string

text \<open>
  The sender: its rate limiter, its retry queue, the send attempts it has made so far (the
  k-th attempt gets the k-th answer of the server) and the lines it has logged.
\<close>

record EmailSender =
  rate_limiter :: RateLimiter
  retry_queue :: "email_data list"
  smtp_attempts :: "smtp_message list"
  sender_log :: "log_entry list"

definition new_EmailSender :: "RateLimiter \<Rightarrow> EmailSender" where
  "new_EmailSender rl = \<lparr>rate_limiter = rl, retry_queue = [], smtp_attempts = [], sender_log = []\<rparr>"

definition send_email ::
  "environment \<Rightarrow> settings \<Rightarrow> EmailSender \<Rightarrow> string list \<Rightarrow> string \<Rightarrow> string
     \<Rightarrow> bool \<times> EmailSender" where
  "send_email env cfg es rcpts subj body =
     (let log1 = sender_log es @ [Inside_send_email, Sending_email_to rcpts];
          (to_all, log2) =
            (if USE_TEST_EMAIL cfg
             then ([TEST_EMAIL cfg], log1 @ [Using_test_email_address (TEST_EMAIL cfg)])
             else (rcpts @ LOGGER_EMAILS cfg, log1));
          answer = smtp_server env (length (smtp_attempts es));
          es1 = es\<lparr>smtp_attempts := smtp_attempts es
                   @ [\<lparr>all_recipients = to_all, message_subject = subj, message_content = body\<rparr>]\<rparr>
      in case answer of
           Delivered \<Rightarrow> (True, es1\<lparr>sender_log := log2 @ [Email_sent_successfully]\<rparr>)
         | Refused_recipients \<Rightarrow> (False, es1\<lparr>sender_log := log2 @ [Partial_email_delivery_failure]\<rparr>)
         | Smtp_exception \<Rightarrow> (False, es1\<lparr>sender_log := log2 @ [Failed_to_send_email]\<rparr>))"

definition queue_for_retry ::
  "clock \<Rightarrow> EmailSender \<Rightarrow> email_data \<Rightarrow> int \<Rightarrow> clock \<times> EmailSender" where
  "queue_for_retry c es email attempt_number =
     (if attempt_number \<le> MAX_EMAIL_RETRY_ATTEMPTS then
        (let (t, c1) = time_time c
         in (c1, es\<lparr>retry_queue := retry_queue es
                        @ [email\<lparr>attempt := Some attempt_number, next_try := Some (t + 30)\<rparr>],
                     sender_log := sender_log es @ [Email_queued_for_retry attempt_number]\<rparr>))
      else
        (c, es\<lparr>sender_log := sender_log es
                   @ [Email_failed_after_attempts email, Email_permanently_failed email]\<rparr>))"

text \<open>
  One pass through the body of the retry thread's endless loop (the sleeps are time that
  passes on the clock). A missing key raises inside the \<^verbatim>\<open>try\<close> and is logged.
\<close>

definition retry_job_step ::
  "environment \<Rightarrow> settings \<Rightarrow> clock \<Rightarrow> EmailSender \<Rightarrow> clock \<times> EmailSender" where
  "retry_job_step env cfg c es =
     (case retry_queue es of
        [] \<Rightarrow> (c, es)
      | email # rest \<Rightarrow>
          (let es1 = es\<lparr>retry_queue := rest\<rparr>
           in case next_try email of
                None \<Rightarrow>
                  (c, es1\<lparr>sender_log := sender_log es1
                            @ [Error_in_email_retry_thread (KeyError ''next_try'')]\<rparr>)
              | Some due \<Rightarrow>
                  (let (t, c1) = time_time c
                   in if due > t then (c1, es1\<lparr>retry_queue := rest @ [email]\<rparr>)
                      else
                        (let (success, es2) =
                               send_email env cfg es1 (recipients email) (subject email) (content email)
                         in if \<not> success then
                              (case attempt email of
                                 None \<Rightarrow>
                                   (c1, es2\<lparr>sender_log := sender_log es2
                                              @ [Error_in_email_retry_thread (KeyError ''attempt'')]\<rparr>)
                               | Some a \<Rightarrow> queue_for_retry c1 es2 email (a + 1))
                            else (c1, es2)))))"

text \<open>The first \<open>n\<close> passes of the retry thread.\<close>

fun retry_job ::
  "nat \<Rightarrow> environment \<Rightarrow> settings \<Rightarrow> clock \<Rightarrow> EmailSender \<Rightarrow> clock \<times> EmailSender" where
  "retry_job 0 env cfg c es = (c, es)"
| "retry_job (Suc n) env cfg c es =
     (let (c1, es1) = retry_job_step env cfg c es in retry_job n env cfg c1 es1)"

text \<open>
  A Python dictionary of lists keeps its keys in insertion order: \<open>dict_append\<close> appends a
  value to the list of a key, creating the key at the end when it is new.
\<close>

fun dict_append :: "('k \<times> 'v list) list \<Rightarrow> 'k \<Rightarrow> 'v \<Rightarrow> ('k \<times> 'v list) list" where
  "dict_append [] k v = [(k, [v])]"
| "dict_append ((k', vs) # d) k v =
     (if k' = k then (k', vs @ [v]) # d else (k', vs) # dict_append d k v)"

text \<open>\<^verbatim>\<open>str.strip()\<close> on ASCII text.\<close>

definition is_space :: "char \<Rightarrow> bool" where
  "is_space ch \<longleftrightarrow>
     ch \<in> set [CHR '' '', CHR 0x09, CHR 0x0A, CHR 0x0B, CHR 0x0C, CHR 0x0D,
               CHR 0x1C, CHR 0x1D, CHR 0x1E, CHR 0x1F]"

definition strip :: "string \<Rightarrow> string" where
  "strip s = rev (dropWhile is_space (rev (dropWhile is_space s)))"

definition group_by_device :: "breach_object list \<Rightarrow> (string \<times> breach_object list) list" where
  "group_by_device breaches = foldl (\<lambda>d b. dict_append d (device_id b) b) [] breaches"

text \<open>The rate-limit check of the breaches of one device.\<close>

fun filter_breaches ::
  "settings \<Rightarrow> clock \<Rightarrow> RateLimiter \<Rightarrow> breach_object list
     \<Rightarrow> breach_object list \<times> clock \<times> RateLimiter" where
  "filter_breaches cfg c rl [] = ([], c, rl)"
| "filter_breaches cfg c rl (b # bs) =
     (let (allowed, c1, rl1) = should_send cfg c rl (device_id b) (sensor_id b) (threshold_type b);
          (rest, c2, rl2) = filter_breaches cfg c1 rl1 bs
      in (if allowed then b # rest else rest, c2, rl2))"

text \<open>
  The recipients of the breaches of one device that passed the rate limit. The live
  \<^verbatim>\<open>get_emails\<close> returns a string, which is wrapped into a one-element list.
\<close>

fun add_recipients ::
  "clock \<Rightarrow> emails_cache \<Rightarrow> (string \<times> breach_object list) list \<Rightarrow> string \<Rightarrow> breach_object list
     \<Rightarrow> clock \<times> emails_cache \<times> (string \<times> breach_object list) list" where
  "add_recipients c cache emails_to_send did [] = (c, cache, emails_to_send)"
| "add_recipients c cache emails_to_send did (b # bs) =
     (let (found, c1, cache1) = get_emails c cache did (threshold_type b);
          emails_to_send1 =
            foldl (\<lambda>d email. let email_str = strip email
                              in if email_str \<noteq> [] then dict_append d email_str b else d)
              emails_to_send [found]
      in add_recipients c1 cache1 emails_to_send1 did bs)"

text \<open>The loop over the devices: rate limiting, then recipient resolution.\<close>

fun resolve_recipients ::
  "settings \<Rightarrow> clock \<Rightarrow> emails_cache \<Rightarrow> EmailSender \<Rightarrow> (string \<times> breach_object list) list
     \<Rightarrow> (string \<times> breach_object list) list
     \<Rightarrow> clock \<times> emails_cache \<times> EmailSender \<times> (string \<times> breach_object list) list" where
  "resolve_recipients cfg c cache es emails_to_send [] = (c, cache, es, emails_to_send)"
| "resolve_recipients cfg c cache es emails_to_send ((did, device_breach_list) # rest) =
     (let (filtered_breaches, c1, rl1) = filter_breaches cfg c (rate_limiter es) device_breach_list;
          es1 = es\<lparr>rate_limiter := rl1\<rparr>
      in if filtered_breaches = [] then
           resolve_recipients cfg c1 cache
             (es1\<lparr>sender_log := sender_log es1 @ [No_breaches_passed_rate_limiting did]\<rparr>)
             emails_to_send rest
         else
           (let (c2, cache2, emails_to_send2) =
                  add_recipients c1 cache emails_to_send did filtered_breaches
            in resolve_recipients cfg c2 cache2 es1 emails_to_send2 rest))"

text \<open>The loop over the recipients: compose, send, and queue for retry on failure.\<close>

fun send_emails ::
  "environment \<Rightarrow> settings \<Rightarrow> formatter \<Rightarrow> clock \<Rightarrow> EmailSender
     \<Rightarrow> (string \<times> breach_object list) list \<Rightarrow> clock \<times> EmailSender" where
  "send_emails env cfg fmt c es [] = (c, es)"
| "send_emails env cfg fmt c es ((recipient_email, recipient_breaches) # rest) =
     (let subj = create_email_subject fmt recipient_breaches;
          html_content = create_html_content fmt recipient_breaches;
          es1 = es\<lparr>sender_log := sender_log es
                   @ [Sending_email_with_breaches recipient_email (length recipient_breaches)]\<rparr>;
          (success, es2) = send_email env cfg es1 [recipient_email] subj html_content;
          (c1, es3) =
            (if \<not> success then
               queue_for_retry c es2
                 \<lparr>recipients = [recipient_email], subject = subj, content = html_content,
                  attempt = None, next_try = None\<rparr> 1
             else (c, es2))
      in send_emails env cfg fmt c1 es3 rest)"

definition process_breaches ::
  "environment \<Rightarrow> settings \<Rightarrow> formatter \<Rightarrow> clock \<Rightarrow> emails_cache \<Rightarrow> EmailSender
     \<Rightarrow> breach_object list \<Rightarrow> clock \<times> emails_cache \<times> EmailSender" where
  "process_breaches env cfg fmt c cache es breaches =
     (let es0 = es\<lparr>sender_log := sender_log es
                   @ [Inside_process_breaches, Processing_breaches (length breaches)]\<rparr>;
          device_breaches = group_by_device breaches;
          (c1, cache1, es1, emails_to_send) = resolve_recipients cfg c cache es0 [] device_breaches
      in if emails_to_send = [] then
           (c1, cache1, es1\<lparr>sender_log := sender_log es1 @ [No_emails_to_send]\<rparr>)
         else
           (let es2 = es1\<lparr>sender_log := sender_log es1
                          @ [Sending_emails_to_recipients (length emails_to_send)]\<rparr>;
                (c2, es3) = send_emails env cfg fmt c1 es2 emails_to_send
            in (c2, cache1, es3)))"

subsection \<open>Sends a queued email can still cause\<close>

text \<open>
  A queued email with attempt number \<open>a\<close> is sent once and, while the send fails, queued
  again with \<open>a + 1\<close> as long as that does not exceed the maximum: it can cause
  \<open>MAX - a + 1\<close> sends. \<open>pending_sends\<close> adds the sends the queue can still cause to the
  sends already made.
\<close>

definition sends_left :: "email_data \<Rightarrow> nat" where
  "sends_left email =
     (case next_try email of
        None \<Rightarrow> 0
      | Some due \<Rightarrow>
          (case attempt email of
             None \<Rightarrow> 1
           | Some a \<Rightarrow> if a \<le> MAX_EMAIL_RETRY_ATTEMPTS then nat (MAX_EMAIL_RETRY_ATTEMPTS - a) + 1 else 1))"

definition pending_sends :: "EmailSender \<Rightarrow> nat" where
  "pending_sends es = length (smtp_attempts es) + sum_list (map sends_left (retry_queue es))"

subsection \<open>Where the new send attempts went\<close>

text \<open>
  \<open>sent_only_to addr es es'\<close>: the sender \<open>es'\<close> has made the attempts of \<open>es\<close> and
  after them only attempts addressed to exactly \<open>addr\<close>.
\<close>

definition sent_only_to :: "string list \<Rightarrow> EmailSender \<Rightarrow> EmailSender \<Rightarrow> bool" where
  "sent_only_to addr es es' \<longleftrightarrow>
     (\<exists>new. smtp_attempts es' = smtp_attempts es @ new \<and> (\<forall>m \<in> set new. all_recipients m = addr))"

subsection \<open>Breaches that pass the rate limit\<close>

text \<open>
  The emails cache starts empty and is written only by \<open>get_emails\<close>: every value it holds
  is an answer of the store.
\<close>

definition emails_cache_from_store :: "emails_cache \<Rightarrow> bool" where
  "emails_cache_from_store cache \<longleftrightarrow>
     (\<forall>did ttype v t. cache (did, ttype) = Some (v, t) \<longrightarrow> v = original_get_emails did ttype)"

text \<open>
  The breaches of a batch, grouped by device, that \<open>should_send\<close> allows, in the order and
  at the clock values at which \<open>process_breaches\<close> asks: the breaches of a device are
  checked first, then the recipients of those that passed are looked up, then the next
  device is checked.
\<close>

fun passed_rate_limit ::
  "settings \<Rightarrow> clock \<Rightarrow> emails_cache \<Rightarrow> RateLimiter \<Rightarrow> (string \<times> breach_object list) list
     \<Rightarrow> breach_object list" where
  "passed_rate_limit cfg c cache rl [] = []"
| "passed_rate_limit cfg c cache rl ((did, device_breach_list) # rest) =
     (let (filtered_breaches, c1, rl1) = filter_breaches cfg c rl device_breach_list;
          (c2, cache2, found) = add_recipients c1 cache [] did filtered_breaches
      in filtered_breaches @ passed_rate_limit cfg c2 cache2 rl1 rest)"

section \<open>Example data\<close>

text \<open>A clock that reads \<open>t\<close> at every read, and one whose k-th read returns \<open>k * d\<close>.\<close>

definition clock_at :: "real \<Rightarrow> clock" where
  "clock_at t = \<lparr>readings = (\<lambda>k. t), ticks = 0\<rparr>"

definition clock_every :: "real \<Rightarrow> clock" where
  "clock_every d = \<lparr>readings = (\<lambda>k. real k * d), ticks = 0\<rparr>"

definition example_breach :: breach_object where
  "example_breach =
     \<lparr>device_id = ''d1'', sensor_id = ''s1'', factory_name = ''Unknown Factory'',
      zone_name = ''Unknown Zone'', machine_name = ''Unknown Machine'', sensor_name = ''temp'',
      sensor_value = PyInt 15, timestamp = PyInt 0, threshold_type = ''yellow'',
      threshold_value = 10\<rparr>"

definition example_manager :: DeviceStateManager where
  "example_manager =
     \<lparr>states = [''d1'' \<mapsto> [''s1'' \<mapsto>
        \<lparr>yellow = \<lparr>above_threshold = True, since_timestamp = Some 0,
                    breach = Some example_breach\<rparr>,
         orange = null_level_state\<rparr>]],
      last_access = [''d1'' \<mapsto> 0]\<rparr>"

definition example_environment :: environment where
  "example_environment =
     \<lparr>thresholds_row = (\<lambda>did sid. Some (10, 20, 30)),
      entity_rows = (\<lambda>did. []),
      float_of_str = (\<lambda>s. None),
      smtp_server = (\<lambda>k. Smtp_exception)\<rparr>"

definition example_checker :: checker where
  "example_checker =
     \<lparr>clk = clock_every 1,
      device_state_manager = new_DeviceStateManager,
      threshold_cache = Map.empty,
      critical_queue = new_Queue QUEUE_SIZE,
      warning_queue = new_Queue QUEUE_SIZE,
      logged = []\<rparr>"

definition red_reading :: sensor_reading where
  "red_reading = \<lparr>reading_sensor_id = ''s2'', reading_sensor_type = ''temp'', reading_value = PyInt 35\<rparr>"

definition low_reading :: sensor_reading where
  "low_reading = \<lparr>reading_sensor_id = ''s1'', reading_sensor_type = ''temp'', reading_value = PyInt 5\<rparr>"

text \<open>The classifier's state after \<open>low_reading\<close> of device \<open>d1\<close> has been checked.\<close>

definition after_low_reading :: checker where
  "after_low_reading =
     \<lparr>clk = (clock_every 1)\<lparr>ticks := 6\<rparr>,
      device_state_manager =
        \<lparr>states = [''d1'' \<mapsto> [''s1'' \<mapsto> new_sensor_state]], last_access = [''d1'' \<mapsto> 4]\<rparr>,
      threshold_cache = [(''d1'', ''s1'') \<mapsto> ((10, 20, 30), 0)],
      critical_queue = new_Queue QUEUE_SIZE,
      warning_queue = new_Queue QUEUE_SIZE,
      logged = []\<rparr>"

definition null_reading :: sensor_reading where
  "null_reading = \<lparr>reading_sensor_id = ''s1'', reading_sensor_type = ''temp'', reading_value = PyNone\<rparr>"

definition example_formatter :: formatter where
  "example_formatter =
     \<lparr>create_email_subject = (\<lambda>breaches. ''[Threshold Breach Alert]''),
      create_html_content = (\<lambda>breaches. ''<html>'')\<rparr>"

text \<open>One yellow breach is processed while the SMTP server refuses every message.\<close>

definition example_notification :: "clock \<times> emails_cache \<times> EmailSender" where
  "example_notification =
     process_breaches example_environment default_settings example_formatter (clock_every 100)
       Map.empty (new_EmailSender new_RateLimiter) [example_breach]"

text \<open>The default configuration with the test-mode flag set.\<close>

definition test_settings :: settings where
  "test_settings = default_settings\<lparr>USE_TEST_EMAIL := True\<rparr>"

text \<open>A red breach of the same device, for another sensor.\<close>

definition example_red_breach :: breach_object where
  "example_red_breach =
     \<lparr>device_id = ''d1'', sensor_id = ''s2'', factory_name = ''Unknown Factory'',
      zone_name = ''Unknown Zone'', machine_name = ''Unknown Machine'', sensor_name = ''temp'',
      sensor_value = PyInt 35, timestamp = PyInt 0, threshold_type = ''red'',
      threshold_value = 30\<rparr>"

section \<open>Properties of the device state manager\<close>

lemma lower_yellow: "lower ''yellow'' = ''yellow''"
  by (simp add: lower_def lower_char_def)

lemma lower_orange: "lower ''orange'' = ''orange''"
  by (simp add: lower_def lower_char_def)

lemma lower_red: "lower ''red'' = ''red''"
  by (simp add: lower_def lower_char_def)

lemma get_sensor_state_result:
  assumes "get_sensor_state c m did sid = (ss, c', m')"
  shows "ss = sensor_view m did sid"
    and "states m' = (states m)(did \<mapsto> (sensors_of m did)(sid \<mapsto> ss))"
  using assms
  by (auto simp: get_sensor_state_def sensor_view_def sensors_of_def time_time_def map_upd_triv
      split: option.splits prod.splits)

lemma write_back_stored:
  assumes "states m1 = (states m)(did \<mapsto> (sensors_of m did)(sid \<mapsto> ss))"
  shows "states (write_back m1 did sid ss') = (states m)(did \<mapsto> (sensors_of m did)(sid \<mapsto> ss'))"
  using assms by (simp add: write_back_def)

lemma sensor_view_store:
  assumes "states m' = (states m)(did \<mapsto> (sensors_of m did)(sid \<mapsto> ss))"
  shows "sensor_view m' d s = (if d = did \<and> s = sid then ss else sensor_view m d s)"
  using assms by (auto simp: sensor_view_def sensors_of_def split: option.splits)

lemma level_view_store:
  assumes "states m' = (states m)(did \<mapsto> (sensors_of m did)(sid \<mapsto> ss))"
  shows "level_view m' d s l = (if d = did \<and> s = sid then getitem ss l else level_view m d s l)"
  using sensor_view_store [OF assms] by (simp add: level_view_def)

lemma getitem_setitem:
  "getitem ss key = Some old \<Longrightarrow>
     getitem (setitem ss key v) l = (if l = key then Some v else getitem ss l)"
  by (auto simp: getitem_def setitem_def split: if_splits)

lemma store_same:
  assumes "sensors_of m did sid = Some ss"
  shows "(states m)(did \<mapsto> (sensors_of m did)(sid \<mapsto> sensor_view m did sid)) = states m"
  using assms by (auto simp: sensors_of_def sensor_view_def map_upd_triv split: option.splits)

lemma check_sustained_breach_result:
  assumes "check_sustained_breach c m did sid ttype dwell = (res, c', m')"
    and "getitem (sensor_view m did sid) (lower ttype) = Some st"
    and "now = fst (time_time (fst (snd (get_sensor_state c m did sid))))"
  shows "if above_threshold st \<and> (\<exists>since. since_timestamp st = Some since \<and> now - since \<ge> real_of_int dwell)
         then res = Inr (True, breach st) \<and>
              states m' = (states m)(did \<mapsto> (sensors_of m did)(sid \<mapsto> setitem (sensor_view m did sid) (lower ttype) null_level_state))
         else res = Inr (False, None) \<and>
              states m' = (states m)(did \<mapsto> (sensors_of m did)(sid \<mapsto> sensor_view m did sid))"
proof -
  obtain ss c1 m1 where g: "get_sensor_state c m did sid = (ss, c1, m1)"
    by (cases "get_sensor_state c m did sid") auto
  note r = get_sensor_state_result [OF g]
  from assms g r show ?thesis
    by (auto simp: check_sustained_breach_def Let_def write_back_stored split: prod.splits option.splits if_splits)
qed

lemma update_sensor_state_result:
  assumes "update_sensor_state c m did sid ttype is_above br = (res, c', m')"
    and "getitem (sensor_view m did sid) (lower ttype) = Some st"
    and "now = fst (time_time (fst (snd (get_sensor_state c m did sid))))"
    and "st' = (if is_above
                then (if above_threshold st then st
                      else \<lparr>above_threshold = True, since_timestamp = Some now, breach = br\<rparr>)
                else null_level_state)"
  shows "res = Inr (setitem (sensor_view m did sid) (lower ttype) st') \<and>
         states m' = (states m)(did \<mapsto> (sensors_of m did)(sid \<mapsto> setitem (sensor_view m did sid) (lower ttype) st'))"
proof -
  obtain ss c1 m1 where g: "get_sensor_state c m did sid = (ss, c1, m1)"
    by (cases "get_sensor_state c m did sid") auto
  note r = get_sensor_state_result [OF g]
  from assms(2) have "lower ttype = ''yellow'' \<or> lower ttype = ''orange''"
    by (auto simp: getitem_def split: if_splits)
  with assms g r show ?thesis
    by (auto simp: update_sensor_state_def Let_def write_back_stored null_level_state_def
        split: prod.splits option.splits if_splits)
qed

lemma SensorState_invariantD:
  "SensorState_invariant m \<Longrightarrow> states m did = Some sensors \<Longrightarrow> sensors sid = Some ss \<Longrightarrow>
     level_state_ok (yellow ss) \<and> level_state_ok (orange ss)"
  unfolding SensorState_invariant_def by blast

lemma invariant_store:
  assumes "SensorState_invariant m"
    and "states m' = (states m)(did \<mapsto> (sensors_of m did)(sid \<mapsto> ss))"
    and "level_state_ok (yellow ss)" and "level_state_ok (orange ss)"
  shows "SensorState_invariant m'"
  unfolding SensorState_invariant_def
proof (intro allI impI)
  fix d sensors s x
  assume a: "states m' d = Some sensors" and b: "sensors s = Some x"
  show "level_state_ok (yellow x) \<and> level_state_ok (orange x)"
  proof (cases "d = did")
    case False
    with a assms(2) have "states m d = Some sensors" by simp
    with b assms(1) show ?thesis unfolding SensorState_invariant_def by blast
  next
    case True
    with a assms(2) have s: "sensors = (sensors_of m did)(sid \<mapsto> ss)" by simp
    show ?thesis
    proof (cases "s = sid")
      case True
      with s b assms(3,4) show ?thesis by simp
    next
      case False
      with s b have "sensors_of m did s = Some x" by simp
      then obtain old where "states m did = Some old" "old s = Some x"
        by (auto simp: sensors_of_def split: option.splits)
      with assms(1) show ?thesis unfolding SensorState_invariant_def by blast
    qed
  qed
qed

lemma invariant_sensor_view:
  "SensorState_invariant m \<Longrightarrow>
     level_state_ok (yellow (sensor_view m did sid)) \<and> level_state_ok (orange (sensor_view m did sid))"
  by (auto simp: SensorState_invariant_def sensor_view_def sensors_of_def new_sensor_state_def
      null_level_state_def level_state_ok_def split: option.splits)

lemma setitem_ok:
  assumes "level_state_ok (yellow ss)" "level_state_ok (orange ss)" "level_state_ok st"
  shows "level_state_ok (yellow (setitem ss key st)) \<and> level_state_ok (orange (setitem ss key st))"
  using assms by (simp add: setitem_def)

lemma get_sensor_state_invariant:
  assumes inv: "SensorState_invariant m"
  shows "SensorState_invariant (snd (snd (get_sensor_state c m did sid)))"
proof -
  obtain ss c' m' where g: "get_sensor_state c m did sid = (ss, c', m')"
    by (cases "get_sensor_state c m did sid") auto
  from get_sensor_state_result [OF g] invariant_sensor_view [OF inv, of did sid]
  have "SensorState_invariant m'"
    by (intro invariant_store [OF inv]) auto
  with g show ?thesis by simp
qed

lemma update_sensor_state_invariant:
  assumes inv: "SensorState_invariant m" and br: "is_above \<longrightarrow> br \<noteq> None"
  shows "SensorState_invariant (snd (snd (update_sensor_state c m did sid ttype is_above br)))"
proof (cases "getitem (sensor_view m did sid) (lower ttype)")
  case None
  then have "lower ttype \<noteq> ''yellow'' \<and> lower ttype \<noteq> ''orange''"
    by (auto simp: getitem_def split: if_splits)
  with inv show ?thesis by (simp add: update_sensor_state_def)
next
  case (Some st)
  obtain res c' m' where u: "update_sensor_state c m did sid ttype is_above br = (res, c', m')"
    by (cases "update_sensor_state c m did sid ttype is_above br") auto
  define now where "now = fst (time_time (fst (snd (get_sensor_state c m did sid))))"
  define st' where "st' = (if is_above
                then (if above_threshold st then st
                      else \<lparr>above_threshold = True, since_timestamp = Some now, breach = br\<rparr>)
                else null_level_state)"
  note v = invariant_sensor_view [OF inv, of did sid]
  from Some v have "level_state_ok st" by (auto simp: getitem_def split: if_splits)
  with br have "level_state_ok st'"
    by (auto simp: st'_def level_state_ok_def null_level_state_def)
  with v have ok: "level_state_ok (yellow (setitem (sensor_view m did sid) (lower ttype) st'))"
     "level_state_ok (orange (setitem (sensor_view m did sid) (lower ttype) st'))"
    using setitem_ok by blast+
  from update_sensor_state_result [OF u Some now_def st'_def]
  have "SensorState_invariant m'"
    using invariant_store [OF inv _ ok] by blast
  with u show ?thesis by simp
qed

lemma check_sustained_breach_invariant:
  assumes inv: "SensorState_invariant m"
  shows "SensorState_invariant (snd (snd (check_sustained_breach c m did sid ttype dwell)))"
proof (cases "getitem (sensor_view m did sid) (lower ttype)")
  case None
  obtain ss c1 m1 where g: "get_sensor_state c m did sid = (ss, c1, m1)"
    by (cases "get_sensor_state c m did sid") auto
  from get_sensor_state_invariant [OF inv, of c did sid] g have "SensorState_invariant m1" by simp
  with None g get_sensor_state_result(1) [OF g] show ?thesis
    by (simp add: check_sustained_breach_def Let_def split: prod.splits)
next
  case (Some st)
  obtain res c' m' where u: "check_sustained_breach c m did sid ttype dwell = (res, c', m')"
    by (cases "check_sustained_breach c m did sid ttype dwell") auto
  note v = invariant_sensor_view [OF inv, of did sid]
  have n: "level_state_ok null_level_state" by (simp add: level_state_ok_def null_level_state_def)
  from check_sustained_breach_result [OF u Some refl]
  have "SensorState_invariant m'"
    using invariant_store [OF inv] v setitem_ok [OF _ _ n] by (auto split: if_splits) 
  with u show ?thesis by simp
qed

text \<open>
  C2. For a level in {yellow, orange} and any dwell: let \<open>st\<close> be the stored sub-state
  of (device, sensor, level) and \<open>now\<close> the clock value \<open>check_sustained_breach\<close>
  reads as its current time. If \<open>st\<close> is above the threshold and \<open>now - since \<ge> dwell\<close>,
  the call returns the stored pending breach and the sub-state becomes the all-null state.
  In every other case it returns \<open>(False, None)\<close> and the sub-state is the one before the
  call (the states map itself is untouched when the sensor already had an entry). No other
  sub-state changes in either case.
\<close>

theorem check_sustained_breach_take_if_sustained:
  assumes level: "lower ttype = ''yellow'' \<or> lower ttype = ''orange''"
    and run: "check_sustained_breach c m did sid ttype dwell = (res, c', m')"
    and stored: "level_view m did sid (lower ttype) = Some st"
    and now: "now = fst (time_time (fst (snd (get_sensor_state c m did sid))))"
  shows "(if above_threshold st
             \<and> (\<exists>since. since_timestamp st = Some since \<and> now - since \<ge> real_of_int dwell)
          then res = Inr (True, breach st)
               \<and> level_view m' did sid (lower ttype) = Some null_level_state
          else res = Inr (False, None)
               \<and> level_view m' did sid (lower ttype) = Some st
               \<and> (sensors_of m did sid \<noteq> None \<longrightarrow> states m' = states m))
         \<and> (\<forall>d s l. (d, s, l) \<noteq> (did, sid, lower ttype) \<longrightarrow>
               level_view m' d s l = level_view m d s l)"
proof -
  from stored have g: "getitem (sensor_view m did sid) (lower ttype) = Some st"
    by (simp add: level_view_def)
  note r = check_sustained_breach_result [OF run g now]
  show ?thesis
  proof (cases "above_threshold st
             \<and> (\<exists>since. since_timestamp st = Some since \<and> now - since \<ge> real_of_int dwell)")
    case True
    with r have res: "res = Inr (True, breach st)"
      and st: "states m' = (states m)(did \<mapsto> (sensors_of m did)(sid \<mapsto>
                 setitem (sensor_view m did sid) (lower ttype) null_level_state))"
      by simp_all
    have a: "level_view m' did sid (lower ttype) = Some null_level_state"
      by (simp add: level_view_store [OF st] getitem_setitem [OF g])
    have b: "\<forall>d s l. (d, s, l) \<noteq> (did, sid, lower ttype) \<longrightarrow>
               level_view m' d s l = level_view m d s l"
      by (simp add: level_view_def sensor_view_store [OF st] getitem_setitem [OF g])
    from True res a b show ?thesis by (simp only: if_True simp_thms)
  next
    case False
    with r have res: "res = Inr (False, None)"
      and st: "states m' = (states m)(did \<mapsto> (sensors_of m did)(sid \<mapsto> sensor_view m did sid))"
      by auto
    have a: "level_view m' did sid (lower ttype) = Some st"
      by (simp add: level_view_store [OF st] g)
    have b: "\<forall>d s l. (d, s, l) \<noteq> (did, sid, lower ttype) \<longrightarrow>
               level_view m' d s l = level_view m d s l"
      by (simp add: level_view_def sensor_view_store [OF st])
    have c: "sensors_of m did sid \<noteq> None \<longrightarrow> states m' = states m"
    proof
      assume "sensors_of m did sid \<noteq> None"
      then obtain ss where "sensors_of m did sid = Some ss" by blast
      from store_same [OF this] st show "states m' = states m" by simp
    qed
    from False res a b c show ?thesis by (simp only: if_False simp_thms)
  qed
qed

theorem check_sustained_breach_take_if_sustained_witness:
  "fst (check_sustained_breach (clock_at 11) example_manager
          ''d1'' ''s1'' ''yellow'' 10) = Inr (True, Some example_breach)
   \<and> level_view (snd (snd (check_sustained_breach (clock_at 11)
          example_manager ''d1'' ''s1'' ''yellow'' 10))) ''d1'' ''s1'' ''yellow''
       = Some null_level_state"
proof -
  let ?c = "clock_at 11"
  let ?st = "\<lparr>above_threshold = True, since_timestamp = Some 0, breach = Some example_breach\<rparr>"
  have level: "lower ''yellow'' = ''yellow'' \<or> lower ''yellow'' = ''orange''"
    by (simp add: lower_yellow)
  have run: "check_sustained_breach ?c example_manager ''d1'' ''s1'' ''yellow'' 10
     = (fst (check_sustained_breach ?c example_manager ''d1'' ''s1'' ''yellow'' 10),
        fst (snd (check_sustained_breach ?c example_manager ''d1'' ''s1'' ''yellow'' 10)),
        snd (snd (check_sustained_breach ?c example_manager ''d1'' ''s1'' ''yellow'' 10)))"
    by simp
  have stored: "level_view example_manager ''d1'' ''s1'' (lower ''yellow'') = Some ?st"
    by (simp add: lower_yellow level_view_def sensor_view_def sensors_of_def example_manager_def
        getitem_def)
  have now: "(11::real) = fst (time_time (fst (snd (get_sensor_state ?c example_manager ''d1'' ''s1''))))"
    by (simp add: get_sensor_state_def example_manager_def time_time_def clock_at_def)
  from check_sustained_breach_take_if_sustained [OF level run stored now]
  show ?thesis by (simp add: lower_yellow)
qed

text \<open>
  C3, as the code has it. \<open>get_sensor_state\<close> and \<open>check_sustained_breach\<close> preserve the
  SensorState invariant for every device, sensor and level; \<open>update_sensor_state\<close>
  preserves it whenever the call is a reset (\<open>is_above_threshold\<close> false) or supplies a
  breach.
\<close>

theorem SensorState_invariant_preserved:
  assumes "SensorState_invariant m"
  shows "SensorState_invariant (snd (snd (get_sensor_state c m did sid)))
       \<and> ((is_above \<longrightarrow> br \<noteq> None) \<longrightarrow>
            SensorState_invariant (snd (snd (update_sensor_state c m did sid ttype is_above br))))
       \<and> SensorState_invariant (snd (snd (check_sustained_breach c m did sid ttype dwell)))"
proof (intro conjI impI)
  show "SensorState_invariant (snd (snd (get_sensor_state c m did sid)))"
    by (rule get_sensor_state_invariant [OF assms])
next
  assume "is_above \<longrightarrow> br \<noteq> None"
  with assms show "SensorState_invariant (snd (snd (update_sensor_state c m did sid ttype is_above br)))"
    by (rule update_sensor_state_invariant)
next
  show "SensorState_invariant (snd (snd (check_sustained_breach c m did sid ttype dwell)))"
    by (rule check_sustained_breach_invariant [OF assms])
qed

theorem SensorState_invariant_preserved_witness:
  "SensorState_invariant new_DeviceStateManager
   \<and> SensorState_invariant (snd (snd (get_sensor_state (clock_at 11)
         new_DeviceStateManager ''d1'' ''s1'')))
   \<and> SensorState_invariant (snd (snd (update_sensor_state (clock_at 11)
         new_DeviceStateManager ''d1'' ''s1'' ''yellow'' True (Some example_breach))))
   \<and> SensorState_invariant (snd (snd (check_sustained_breach (clock_at 11)
         new_DeviceStateManager ''d1'' ''s1'' ''yellow'' 10)))"
proof -
  have inv: "SensorState_invariant new_DeviceStateManager"
    by (simp add: SensorState_invariant_def new_DeviceStateManager_def)
  from SensorState_invariant_preserved [OF inv, of "clock_at 11"
      "''d1''" "''s1''" True "Some example_breach" "''yellow''" 10] inv
  show ?thesis by simp
qed

text \<open>
  C3 as stated fails for \<open>update_sensor_state\<close>: the \<open>breach\<close> argument defaults to
  \<open>None\<close>, and an above-threshold update without a breach stores \<open>above = True\<close> with
  no pending breach.
\<close>

theorem update_sensor_state_without_breach_counterexample:
  "SensorState_invariant new_DeviceStateManager
   \<and> \<not> SensorState_invariant (snd (snd (update_sensor_state (clock_at 11)
         new_DeviceStateManager ''d1'' ''s1'' ''yellow'' True None)))"
proof -
  let ?m = "snd (snd (update_sensor_state (clock_at 11)
         new_DeviceStateManager ''d1'' ''s1'' ''yellow'' True None))"
  have inv: "SensorState_invariant new_DeviceStateManager"
    by (simp add: SensorState_invariant_def new_DeviceStateManager_def)
  have st: "states ?m = [''d1'' \<mapsto> [''s1'' \<mapsto>
        \<lparr>yellow = \<lparr>above_threshold = True, since_timestamp = Some 11, breach = None\<rparr>,
         orange = null_level_state\<rparr>]]"
    by (simp add: update_sensor_state_def lower_yellow get_sensor_state_def time_time_def clock_at_def
        new_DeviceStateManager_def getitem_def setitem_def write_back_def new_sensor_state_def
        null_level_state_def Let_def)
  have "\<not> SensorState_invariant ?m"
  proof
    assume "SensorState_invariant ?m"
    from SensorState_invariantD [OF this, of "''d1''" _ "''s1''"
        "\<lparr>yellow = \<lparr>above_threshold = True, since_timestamp = Some 11, breach = None\<rparr>,
          orange = null_level_state\<rparr>"]
    have "level_state_ok \<lparr>above_threshold = True, since_timestamp = Some 11, breach = None\<rparr>"
      by (simp add: st)
    then show False by (simp add: level_state_ok_def)
  qed
  with inv show ?thesis by simp
qed

text \<open>
  C9. A threshold type whose lower-case form is neither \<open>yellow\<close> nor \<open>orange\<close> makes
  \<open>update_sensor_state\<close> raise ValueError before anything is read or written: the
  states map, the last-access map and the clock are those of the call.
\<close>

theorem update_sensor_state_invalid_type:
  assumes "lower ttype \<noteq> ''yellow''" and "lower ttype \<noteq> ''orange''"
  shows "update_sensor_state c m did sid ttype is_above br = (Inl (ValueError (lower ttype)), c, m)"
  using assms by (simp add: update_sensor_state_def)

theorem update_sensor_state_invalid_type_witness:
  "lower ''Red'' \<noteq> ''yellow'' \<and> lower ''Red'' \<noteq> ''orange'' \<and>
   update_sensor_state (clock_at 11) example_manager ''d1'' ''s1'' ''Red''
       True (Some example_breach)
     = (Inl (ValueError ''red''), clock_at 11, example_manager)"
proof -
  have h1: "lower ''Red'' \<noteq> ''yellow''" and h2: "lower ''Red'' \<noteq> ''orange''"
    by (simp_all add: lower_def lower_char_def)
  from update_sensor_state_invalid_type [OF h1 h2] h1 h2 show ?thesis
    by (simp add: lower_def lower_char_def)
qed

section \<open>Properties of the rate limiter\<close>

text \<open>
  C5. For a severity with a configured timeout (red, orange or yellow, in any case):
  \<open>should_send\<close> returns true and records the current time as last-sent when the key
  (device, sensor, lower-cased severity) has no history entry, or when
  \<open>now - last_sent \<ge> timeout\<close>; otherwise it returns false and the history is unchanged.
\<close>

theorem should_send_spec:
  assumes timeout: "BREACH_TIMEOUT_IN_SECONDS cfg (lower ttype) = Some timeout"
    and run: "should_send cfg c rl did sid ttype = (allowed, c', rl')"
    and now: "now = fst (time_time c)"
    and key: "key = (did, sid, lower ttype)"
  shows "if history rl key = None
            \<or> (\<exists>last_sent. history rl key = Some last_sent \<and> now - last_sent \<ge> real_of_int timeout)
         then allowed \<and> history rl' = (history rl)(key \<mapsto> now)
         else \<not> allowed \<and> history rl' = history rl"
  using assms
  by (auto simp: should_send_def Let_def split: prod.splits option.splits if_splits)

theorem should_send_spec_witness:
  "fst (should_send default_settings (clock_at 100)
          \<lparr>history = [(''d'', ''s'', ''red'') \<mapsto> 0]\<rparr> ''d'' ''s'' ''red'') = False
   \<and> history (snd (snd (should_send default_settings (clock_at 100)
          \<lparr>history = [(''d'', ''s'', ''red'') \<mapsto> 0]\<rparr> ''d'' ''s'' ''red'')))
       = [(''d'', ''s'', ''red'') \<mapsto> 0]
   \<and> fst (should_send default_settings (clock_at 301)
          \<lparr>history = [(''d'', ''s'', ''red'') \<mapsto> 0]\<rparr> ''d'' ''s'' ''red'') = True
   \<and> history (snd (snd (should_send default_settings (clock_at 301)
          \<lparr>history = [(''d'', ''s'', ''red'') \<mapsto> 0]\<rparr> ''d'' ''s'' ''red'')))
       = [(''d'', ''s'', ''red'') \<mapsto> 301]"
proof -
  let ?rl = "\<lparr>history = [(''d'', ''s'', ''red'') \<mapsto> 0::real]\<rparr>"
  let ?c1 = "clock_at 100"
  let ?c2 = "clock_at 301"
  have t: "BREACH_TIMEOUT_IN_SECONDS default_settings (lower ''red'') = Some 300"
    by (simp add: BREACH_TIMEOUT_IN_SECONDS_def default_settings_def lower_red)
  have r1: "should_send default_settings ?c1 ?rl ''d'' ''s'' ''red''
     = (fst (should_send default_settings ?c1 ?rl ''d'' ''s'' ''red''),
        fst (snd (should_send default_settings ?c1 ?rl ''d'' ''s'' ''red'')),
        snd (snd (should_send default_settings ?c1 ?rl ''d'' ''s'' ''red'')))"
    by simp
  have r2: "should_send default_settings ?c2 ?rl ''d'' ''s'' ''red''
     = (fst (should_send default_settings ?c2 ?rl ''d'' ''s'' ''red''),
        fst (snd (should_send default_settings ?c2 ?rl ''d'' ''s'' ''red'')),
        snd (snd (should_send default_settings ?c2 ?rl ''d'' ''s'' ''red'')))"
    by simp
  from should_send_spec [OF t r1 refl refl] should_send_spec [OF t r2 refl refl]
  show ?thesis by (simp add: time_time_def lower_red clock_at_def)
qed

text \<open>
  C10, as the code has it. For a threshold type whose lower-case form is not \<open>red\<close>,
  \<open>orange\<close> or \<open>yellow\<close>, \<open>should_send\<close> returns a decision (it has no failing
  branch), applies the default timeout of 3600 seconds and records the history under the
  lower-cased key.
\<close>

theorem should_send_unknown_severity:
  assumes "lower ttype \<noteq> ''red''" and "lower ttype \<noteq> ''orange''" and "lower ttype \<noteq> ''yellow''"
    and now: "now = fst (time_time c)"
    and key: "key = (did, sid, lower ttype)"
  shows "should_send cfg c rl did sid ttype =
           (if history rl key = None
               \<or> (\<exists>last_sent. history rl key = Some last_sent \<and> now - last_sent \<ge> 3600)
            then (True, snd (time_time c), rl\<lparr>history := (history rl)(key \<mapsto> now)\<rparr>)
            else (False, snd (time_time c), rl))"
  using assms
  by (auto simp: should_send_def Let_def BREACH_TIMEOUT_IN_SECONDS_def
      split: prod.splits option.splits if_splits)

theorem should_send_unknown_severity_witness:
  "should_send default_settings (clock_at 3000)
          \<lparr>history = [(''d'', ''s'', ''purple'') \<mapsto> 0]\<rparr> ''d'' ''s'' ''Purple''
     = (False, (clock_at 3000)\<lparr>ticks := 1\<rparr>, \<lparr>history = [(''d'', ''s'', ''purple'') \<mapsto> 0]\<rparr>)
   \<and> should_send default_settings (clock_at 3600)
          \<lparr>history = [(''d'', ''s'', ''purple'') \<mapsto> 0]\<rparr> ''d'' ''s'' ''Purple''
     = (True, (clock_at 3600)\<lparr>ticks := 1\<rparr>,
        \<lparr>history = [(''d'', ''s'', ''purple'') \<mapsto> 3600]\<rparr>)"
proof -
  have l: "lower ''Purple'' = ''purple''" by (simp add: lower_def lower_char_def)
  have a: "lower ''Purple'' \<noteq> ''red''" "lower ''Purple'' \<noteq> ''orange''" "lower ''Purple'' \<noteq> ''yellow''"
    by (simp_all add: l)
  from should_send_unknown_severity [OF a refl refl, of default_settings
        "clock_at 3000" "\<lparr>history = [(''d'', ''s'', ''purple'') \<mapsto> 0]\<rparr>" "''d''" "''s''"]
      should_send_unknown_severity [OF a refl refl, of default_settings
        "clock_at 3600" "\<lparr>history = [(''d'', ''s'', ''purple'') \<mapsto> 0]\<rparr>" "''d''" "''s''"]
  show ?thesis by (simp add: l time_time_def clock_at_def)
qed

text \<open>
  C10 as stated fails: \<open>RED\<close> is none of the three strings, but the lookup is made with
  the lower-cased type, so the red timeout (300 seconds by default) applies and a second
  notification after 300 seconds is allowed, where a timeout of 3600 would deny it.
\<close>

theorem should_send_upper_case_red_counterexample:
  "''RED'' \<noteq> ''red'' \<and> ''RED'' \<noteq> ''orange'' \<and> ''RED'' \<noteq> ''yellow''
   \<and> \<not> ((300::real) - 0 \<ge> 3600)
   \<and> should_send default_settings (clock_at 300)
          \<lparr>history = [(''d'', ''s'', ''red'') \<mapsto> 0]\<rparr> ''d'' ''s'' ''RED''
     = (True, (clock_at 300)\<lparr>ticks := 1\<rparr>, \<lparr>history = [(''d'', ''s'', ''red'') \<mapsto> 300]\<rparr>)"
  by (simp add: should_send_def Let_def time_time_def clock_at_def lower_def lower_char_def
      BREACH_TIMEOUT_IN_SECONDS_def default_settings_def)

section \<open>Properties of the threshold classifier\<close>

lemma float_of_int_exact: "\<bar>i\<bar> \<le> 2 ^ 53 \<Longrightarrow> float_of_int i = Inr (real_of_int i)"
  by (simp add: float_of_int_def)

lemma make_breach_object_fields:
  "device_id (make_breach_object env did r ts ttype tvalue) = did"
  "sensor_id (make_breach_object env did r ts ttype tvalue) = reading_sensor_id r"
  "sensor_value (make_breach_object env did r ts ttype tvalue) = reading_value r"
  "timestamp (make_breach_object env did r ts ttype tvalue) = ts"
  "threshold_type (make_breach_object env did r ts ttype tvalue) = lower ttype"
  "threshold_value (make_breach_object env did r ts ttype tvalue) = tvalue"
  by (simp_all add: make_breach_object_def split: prod.splits)

lemma example_thresholds:
  "get_thresholds example_environment (clock_every 1) Map.empty ''d1'' ''s2''
     = (Inr (10, 20, 30), (clock_every 1)\<lparr>ticks := 1\<rparr>, [(''d1'', ''s2'') \<mapsto> ((10, 20, 30), 0)])"
  by (simp add: get_thresholds_def original_get_thresholds_def example_environment_def time_time_def
      clock_every_def)

lemma check_readings_append:
  "check_readings env cfg s did (xs @ ys) ts =
     (case check_readings env cfg s did xs ts of
        (Some e, s') \<Rightarrow> (Some e, s')
      | (None, s') \<Rightarrow> check_readings env cfg s' did ys ts)"
  by (induction xs arbitrary: s) (auto split: prod.splits option.splits)

text \<open>
  C1, as the code has it. Take a reading the loop reaches (no reading before it in the
  event has raised) whose value converts to a number that is at least the red threshold.
  The loop body raises nothing and leaves the device state manager (the SensorState of
  every sensor and the last-access map) and the warning queue as they were. When the
  critical queue has room, exactly one breach is appended to it, of type \<open>red\<close> with the
  red threshold as its threshold value, and the detection is logged; when the queue is
  full, the put is refused, the queue is unchanged and the failure is logged. An event that
  carries this one reading ends in that state, and in a list of readings the loop goes on
  from that state with the readings after it.
\<close>

theorem red_breach_immediate:
  assumes reached: "check_readings env cfg s0 did before ts = (None, s)"
    and "value": "py_float env (reading_value r) = Inr v"
    and thresholds: "fst (get_thresholds env (clk s) (threshold_cache s) did (reading_sensor_id r))
                       = Inr (y, o', rd)"
    and red: "v \<ge> rd"
    and result: "check_reading env cfg s did r ts = (raised, s')"
    and br: "b = make_breach_object env did r ts ''red'' rd"
  shows "raised = None
       \<and> device_state_manager s' = device_state_manager s
       \<and> warning_queue s' = warning_queue s
       \<and> (if 0 < maxsize (critical_queue s)
               \<and> maxsize (critical_queue s) \<le> int (length (items (critical_queue s)))
           then critical_queue s' = critical_queue s
                \<and> logged s' = logged s @ [Failed_to_queue_breach ''red'' Full]
           else critical_queue s' = (critical_queue s)\<lparr>items := items (critical_queue s) @ [Some b]\<rparr>
                \<and> logged s' = logged s
                      @ [Red_threshold_breach_detected did (reading_sensor_id r) v])
       \<and> threshold_type b = ''red'' \<and> threshold_value b = rd
       \<and> device_id b = did \<and> sensor_id b = reading_sensor_id r
       \<and> run_threshold_check env cfg s
            \<lparr>event_device_id = did, event_time = ts, event_readings = One r\<rparr> = s'
       \<and> check_thresholds_against_data env cfg s0 did (Many (before @ r # after)) ts
            = check_readings env cfg s' did after ts"
proof -
  obtain res c1 cache1 where g: "get_thresholds env (clk s) (threshold_cache s) did (reading_sensor_id r)
      = (res, c1, cache1)"
    by (cases "get_thresholds env (clk s) (threshold_cache s) did (reading_sensor_id r)") auto
  with thresholds have res: "res = Inr (y, o', rd)" by simp
  from "value" g res red result br
  have main: "raised = None
       \<and> device_state_manager s' = device_state_manager s
       \<and> warning_queue s' = warning_queue s
       \<and> (if 0 < maxsize (critical_queue s)
               \<and> maxsize (critical_queue s) \<le> int (length (items (critical_queue s)))
           then critical_queue s' = critical_queue s
                \<and> logged s' = logged s @ [Failed_to_queue_breach ''red'' Full]
           else critical_queue s' = (critical_queue s)\<lparr>items := items (critical_queue s) @ [Some b]\<rparr>
                \<and> logged s' = logged s
                      @ [Red_threshold_breach_detected did (reading_sensor_id r) v])"
    by (auto simp: check_reading_def Let_def put_nowait_def)
  have f: "threshold_type b = ''red'' \<and> threshold_value b = rd
       \<and> device_id b = did \<and> sensor_id b = reading_sensor_id r"
    by (simp add: br make_breach_object_fields lower_red)
  from result main have one: "run_threshold_check env cfg s
            \<lparr>event_device_id = did, event_time = ts, event_readings = One r\<rparr> = s'"
    by (simp add: run_threshold_check_def check_thresholds_against_data_def)
  from result main have "check_readings env cfg s did (r # after) ts
            = check_readings env cfg s' did after ts"
    by simp
  with reached have many: "check_thresholds_against_data env cfg s0 did (Many (before @ r # after)) ts
            = check_readings env cfg s' did after ts"
    by (simp add: check_thresholds_against_data_def check_readings_append)
  from main f one many show ?thesis by simp
qed

lemma low_reading_checked:
  "check_readings example_environment default_settings example_checker ''d1'' [low_reading] (PyInt 0)
     = (None, after_low_reading)"
  by (simp add: check_reading_def reset_branch_def update_sensor_state_def get_sensor_state_def
      get_thresholds_def original_get_thresholds_def example_environment_def example_checker_def
      low_reading_def py_float_def float_of_int_exact time_time_def clock_every_def
      lower_yellow lower_orange getitem_def setitem_def write_back_def new_sensor_state_def
      null_level_state_def new_DeviceStateManager_def after_low_reading_def Let_def)

lemma after_low_reading_thresholds:
  "get_thresholds example_environment (clk after_low_reading) (threshold_cache after_low_reading)
       ''d1'' ''s2''
     = (Inr (10, 20, 30), (clock_every 1)\<lparr>ticks := 7\<rparr>,
        [(''d1'', ''s1'') \<mapsto> ((10, 20, 30), 0), (''d1'', ''s2'') \<mapsto> ((10, 20, 30), 6)])"
  by (simp add: get_thresholds_def original_get_thresholds_def example_environment_def time_time_def
      clock_every_def after_low_reading_def)

theorem red_breach_immediate_witness:
  "check_thresholds_against_data example_environment default_settings example_checker ''d1''
       (Many ([low_reading] @ red_reading # [null_reading])) (PyInt 0)
     = (Some TypeError,
        snd (check_reading example_environment default_settings after_low_reading ''d1'' red_reading
               (PyInt 0)))
   \<and> run_threshold_check example_environment default_settings after_low_reading
       \<lparr>event_device_id = ''d1'', event_time = PyInt 0, event_readings = One red_reading\<rparr>
     = snd (check_reading example_environment default_settings after_low_reading ''d1'' red_reading
              (PyInt 0))
   \<and> device_state_manager (snd (check_reading example_environment default_settings
         after_low_reading ''d1'' red_reading (PyInt 0)))
       = device_state_manager after_low_reading
   \<and> items (critical_queue (snd (check_reading example_environment default_settings
         after_low_reading ''d1'' red_reading (PyInt 0))))
       = [Some (make_breach_object example_environment ''d1'' red_reading (PyInt 0) ''red'' 30)]
   \<and> logged (snd (check_reading example_environment default_settings after_low_reading
         ''d1'' red_reading (PyInt 0)))
       = [Red_threshold_breach_detected ''d1'' ''s2'' 35]"
proof -
  have v: "py_float example_environment (reading_value red_reading) = Inr 35"
    by (simp add: py_float_def red_reading_def float_of_int_exact)
  have t: "fst (get_thresholds example_environment (clk after_low_reading)
             (threshold_cache after_low_reading) ''d1'' (reading_sensor_id red_reading)) = Inr (10, 20, 30)"
    by (simp add: red_reading_def after_low_reading_thresholds)
  have r: "(35::real) \<ge> 30" by simp
  have c: "check_reading example_environment default_settings after_low_reading ''d1'' red_reading (PyInt 0)
    = (fst (check_reading example_environment default_settings after_low_reading ''d1'' red_reading (PyInt 0)),
       snd (check_reading example_environment default_settings after_low_reading ''d1'' red_reading (PyInt 0)))"
    by simp
  have n: "py_float example_environment (reading_value null_reading) = Inl TypeError"
    by (simp add: py_float_def null_reading_def)
  have last: "check_readings example_environment default_settings s ''d1'' [null_reading] (PyInt 0)
                = (Some TypeError, s)" for s
    by (simp add: check_reading_def n)
  from red_breach_immediate [OF low_reading_checked v t r c refl, of "[null_reading]"]
  show ?thesis
    by (simp add: last after_low_reading_def new_Queue_def QUEUE_SIZE_def red_reading_def
        del: check_readings.simps)
qed

text \<open>
  C1 as stated fails when the critical queue is full: the put does not block, the breach is
  dropped and an error is logged.
\<close>

theorem red_breach_full_queue_counterexample:
  "py_float example_environment (reading_value red_reading) = Inr 35
   \<and> fst (get_thresholds example_environment (clk example_checker)
             (threshold_cache example_checker) ''d1'' (reading_sensor_id red_reading)) = Inr (10, 20, 30)
   \<and> (35::real) \<ge> 30
   \<and> critical_queue (snd (check_reading example_environment default_settings
        (example_checker\<lparr>critical_queue :=
            \<lparr>maxsize = QUEUE_SIZE, items = replicate 100 (Some example_breach)\<rparr>\<rparr>)
        ''d1'' red_reading (PyInt 0)))
      = \<lparr>maxsize = QUEUE_SIZE, items = replicate 100 (Some example_breach)\<rparr>
   \<and> logged (snd (check_reading example_environment default_settings
        (example_checker\<lparr>critical_queue :=
            \<lparr>maxsize = QUEUE_SIZE, items = replicate 100 (Some example_breach)\<rparr>\<rparr>)
        ''d1'' red_reading (PyInt 0)))
      = [Failed_to_queue_breach ''red'' Full]"
  by (simp add: check_reading_def example_checker_def red_reading_def py_float_def float_of_int_exact example_thresholds
      put_nowait_def QUEUE_SIZE_def Let_def)

text \<open>A reading whose value does not convert raises out of the loop: the readings after it
  are not looked at.\<close>

lemma check_readings_raise:
  assumes "py_float env (reading_value r) = Inl e"
  shows "check_readings env cfg s did (r # rs) ts = (Some e, s)"
  using assms by (simp add: check_reading_def)

text \<open>
  C4 does not hold of the code. An event with a null value in its first reading and a value
  above the red threshold in its second: the conversion error is logged by the entry point
  and nothing else happens, while the second reading alone queues a red breach.
\<close>

theorem run_threshold_check_bad_value_drops_rest:
  "run_threshold_check example_environment default_settings example_checker
       \<lparr>event_device_id = ''d1'', event_time = PyInt 0,
        event_readings = Many [null_reading, red_reading]\<rparr>
     = example_checker\<lparr>logged := [Error_in_threshold_check TypeError]\<rparr>
   \<and> items (critical_queue (run_threshold_check example_environment default_settings example_checker
       \<lparr>event_device_id = ''d1'', event_time = PyInt 0,
        event_readings = Many [red_reading]\<rparr>))
     = [Some (make_breach_object example_environment ''d1'' red_reading (PyInt 0) ''red'' 30)]"
proof -
  have bad: "py_float example_environment (reading_value null_reading) = Inl TypeError"
    by (simp add: py_float_def null_reading_def)
  have l: "logged example_checker = []"
    by (simp add: example_checker_def)
  have a: "run_threshold_check example_environment default_settings example_checker
       \<lparr>event_device_id = ''d1'', event_time = PyInt 0,
        event_readings = Many [null_reading, red_reading]\<rparr>
     = example_checker\<lparr>logged := [Error_in_threshold_check TypeError]\<rparr>"
    by (simp add: run_threshold_check_def check_thresholds_against_data_def
        check_readings_raise [OF bad] l del: check_readings.simps)
  have b: "items (critical_queue (run_threshold_check example_environment default_settings example_checker
       \<lparr>event_device_id = ''d1'', event_time = PyInt 0,
        event_readings = Many [red_reading]\<rparr>))
     = [Some (make_breach_object example_environment ''d1'' red_reading (PyInt 0) ''red'' 30)]"
    by (simp add: run_threshold_check_def check_thresholds_against_data_def check_reading_def
        example_checker_def red_reading_def py_float_def float_of_int_exact example_thresholds put_nowait_def
        new_Queue_def QUEUE_SIZE_def Let_def)
  from a b show ?thesis by simp
qed

section \<open>Properties of the email sender\<close>

lemma send_email_attempts:
  assumes "send_email env cfg es rcpts subj body = (ok, es')"
  shows "length (smtp_attempts es') = Suc (length (smtp_attempts es))"
    and "retry_queue es' = retry_queue es"
    and "rate_limiter es' = rate_limiter es"
    and "ok \<longleftrightarrow> smtp_server env (length (smtp_attempts es)) = Delivered"
  using assms
  by (auto simp: send_email_def Let_def split: smtp_result.splits if_splits)

lemma queue_for_retry_result:
  assumes "queue_for_retry c es email k = (c', es')"
  shows "smtp_attempts es' = smtp_attempts es"
    and "rate_limiter es' = rate_limiter es"
    and "k \<le> MAX_EMAIL_RETRY_ATTEMPTS \<Longrightarrow>
           retry_queue es' = retry_queue es
             @ [email\<lparr>attempt := Some k, next_try := Some (fst (time_time c) + 30)\<rparr>]
           \<and> c' = snd (time_time c)
           \<and> sender_log es' = sender_log es @ [Email_queued_for_retry k]"
    and "\<not> k \<le> MAX_EMAIL_RETRY_ATTEMPTS \<Longrightarrow>
           retry_queue es' = retry_queue es \<and> c' = c
           \<and> sender_log es' = sender_log es
                @ [Email_failed_after_attempts email, Email_permanently_failed email]"
  using assms
  by (auto simp: queue_for_retry_def Let_def split: prod.splits if_splits)

lemma queue_for_retry_pending:
  assumes "queue_for_retry c es email (a + 1) = (c', es')" and "attempt email = Some a"
    and "next_try email = Some due"
  shows "pending_sends es' + 1 \<le> pending_sends es + sends_left email"
proof (cases "a + 1 \<le> MAX_EMAIL_RETRY_ATTEMPTS")
  case True
  from queue_for_retry_result(1,3) [OF assms(1)] True
  have "pending_sends es' = pending_sends es
          + sends_left (email\<lparr>attempt := Some (a + 1), next_try := Some (fst (time_time c) + 30)\<rparr>)"
    by (simp add: pending_sends_def)
  moreover from True assms(2,3)
  have "sends_left (email\<lparr>attempt := Some (a + 1), next_try := Some (fst (time_time c) + 30)\<rparr>) + 1
          = sends_left email"
    by (simp add: sends_left_def nat_diff_distrib)
  ultimately show ?thesis by simp
next
  case False
  from queue_for_retry_result(1,4) [OF assms(1)] False
  have "pending_sends es' = pending_sends es" by (simp add: pending_sends_def)
  moreover from assms(2,3) have "1 \<le> sends_left email" by (simp add: sends_left_def)
  ultimately show ?thesis by simp
qed

lemma retry_job_step_pending:
  assumes "retry_job_step env cfg c es = (c', es')"
  shows "pending_sends es' \<le> pending_sends es"
proof (cases "retry_queue es")
  case Nil
  with assms show ?thesis by (simp add: retry_job_step_def)
next
  case (Cons email rest)
  show ?thesis
  proof (cases "next_try email")
    case None
    with Cons assms show ?thesis
      by (auto simp: retry_job_step_def Let_def pending_sends_def)
  next
    case (Some due)
    obtain t c1 where tt: "time_time c = (t, c1)" by (cases "time_time c") auto
    show ?thesis
    proof (cases "due > t")
      case True
      with Cons Some tt assms show ?thesis
        by (auto simp: retry_job_step_def Let_def pending_sends_def)
    next
      case False
      let ?es1 = "es\<lparr>retry_queue := rest\<rparr>"
      obtain ok es2 where se: "send_email env cfg ?es1 (recipients email) (subject email) (content email) = (ok, es2)"
        by (cases "send_email env cfg ?es1 (recipients email) (subject email) (content email)") auto
      note s = send_email_attempts(1,2) [OF se]
      from Some have sl: "1 \<le> sends_left email"
        by (simp add: sends_left_def split: option.splits)
      have p2: "pending_sends es2 + sends_left email = pending_sends es + 1"
        using s Cons by (simp add: pending_sends_def)
      show ?thesis
      proof (cases ok)
        case True
        with Cons Some tt False se assms have "es' = es2"
          by (simp add: retry_job_step_def Let_def)
        with p2 sl show ?thesis by simp
      next
        case nok: False
        show ?thesis
        proof (cases "attempt email")
          case None
          with Cons Some tt False se nok assms
          have "pending_sends es' = pending_sends es2"
            by (auto simp: retry_job_step_def Let_def pending_sends_def)
          with p2 sl show ?thesis by simp
        next
          case (Some a)
          with Cons \<open>next_try email = Some due\<close> tt False se nok assms
          have "queue_for_retry c1 es2 email (a + 1) = (c', es')"
            by (simp add: retry_job_step_def Let_def)
          from queue_for_retry_pending [OF this Some \<open>next_try email = Some due\<close>] p2
          show ?thesis by simp
        qed
      qed
    qed
  qed
qed

lemma retry_job_pending:
  "retry_job n env cfg c es = (c', es') \<Longrightarrow> pending_sends es' \<le> pending_sends es"
proof (induction n arbitrary: c es)
  case 0
  then show ?case by simp
next
  case (Suc n)
  obtain c1 es1 where st: "retry_job_step env cfg c es = (c1, es1)"
    by (cases "retry_job_step env cfg c es") auto
  with Suc.prems have "retry_job n env cfg c1 es1 = (c', es')" by simp
  from Suc.IH [OF this] retry_job_step_pending [OF st] show ?case by simp
qed

lemma retry_job_step_failure:
  assumes head: "retry_queue es = email # rest"
    and due: "next_try email = Some due" "\<not> due > fst (time_time c)"
    and att: "attempt email = Some a"
    and failed: "smtp_server env (length (smtp_attempts es)) \<noteq> Delivered"
    and step: "retry_job_step env cfg c es = (c', es')"
  shows "length (smtp_attempts es') = length (smtp_attempts es) + 1
       \<and> (if a < MAX_EMAIL_RETRY_ATTEMPTS
           then retry_queue es' = rest @ [email\<lparr>attempt := Some (a + 1),
                     next_try := Some (fst (time_time (snd (time_time c))) + 30)\<rparr>]
           else retry_queue es' = rest
                \<and> (\<exists>earlier. sender_log es' = earlier
                      @ [Email_failed_after_attempts email, Email_permanently_failed email]))"
proof -
  obtain t c1 where tt: "time_time c = (t, c1)" by (cases "time_time c") auto
  let ?es1 = "es\<lparr>retry_queue := rest\<rparr>"
  obtain ok es2 where se: "send_email env cfg ?es1 (recipients email) (subject email) (content email) = (ok, es2)"
    by (cases "send_email env cfg ?es1 (recipients email) (subject email) (content email)") auto
  from send_email_attempts [OF se] failed
  have s: "length (smtp_attempts es2) = Suc (length (smtp_attempts es))" "retry_queue es2 = rest" "\<not> ok"
    by simp_all
  from head due att tt se s step
  have q: "queue_for_retry c1 es2 email (a + 1) = (c', es')"
    by (simp add: retry_job_step_def Let_def)
  note r = queue_for_retry_result [OF q]
  show ?thesis
  proof (cases "a < MAX_EMAIL_RETRY_ATTEMPTS")
    case True
    then have "a + 1 \<le> MAX_EMAIL_RETRY_ATTEMPTS" by simp
    from r(3) [OF this] r(1) s tt True show ?thesis by simp
  next
    case False
    then have "\<not> a + 1 \<le> MAX_EMAIL_RETRY_ATTEMPTS" by simp
    from r(4) [OF this] r(1) s False show ?thesis by simp
  qed
qed

text \<open>
  C6, as the code has it. A message whose first send failed is handed to the retry path with
  attempt number 1 and \<open>next_try = now + 30\<close>. However long the retry thread runs, the
  message is sent at most \<open>MAX_EMAIL_RETRY_ATTEMPTS\<close> more times: with the first send, at
  most \<open>MAX_EMAIL_RETRY_ATTEMPTS + 1\<close> attempts. Each failed retry of a due entry with
  attempt number \<open>a\<close> queues the message again with \<open>a + 1\<close> and \<open>next_try = now + 30\<close> when
  \<open>a < MAX_EMAIL_RETRY_ATTEMPTS\<close>, and otherwise drops it with the permanent-failure lines
  in the log.
\<close>

theorem retry_attempts_bounded:
  assumes fresh: "retry_queue es = []"
    and msg: "msg = \<lparr>recipients = rcpts, subject = subj, content = body,
                     attempt = None, next_try = None\<rparr>"
    and first: "send_email env cfg es rcpts subj body = (False, es1)"
    and handed: "queue_for_retry c es1 msg 1 = (c2, es2)"
  shows "retry_queue es2 = [msg\<lparr>attempt := Some 1, next_try := Some (fst (time_time c) + 30)\<rparr>]
       \<and> (\<forall>n. length (smtp_attempts (snd (retry_job n env cfg c2 es2)))
               \<le> length (smtp_attempts es) + 1 + nat MAX_EMAIL_RETRY_ATTEMPTS)
       \<and> (\<forall>k sender email rest due a.
             retry_queue sender = email # rest \<and> next_try email = Some due
             \<and> due \<le> fst (time_time k) \<and> attempt email = Some a
             \<and> smtp_server env (length (smtp_attempts sender)) \<noteq> Delivered \<longrightarrow>
             length (smtp_attempts (snd (retry_job_step env cfg k sender)))
               = length (smtp_attempts sender) + 1
             \<and> (if a < MAX_EMAIL_RETRY_ATTEMPTS
                 then retry_queue (snd (retry_job_step env cfg k sender))
                        = rest @ [email\<lparr>attempt := Some (a + 1),
                             next_try := Some (fst (time_time (snd (time_time k))) + 30)\<rparr>]
                 else retry_queue (snd (retry_job_step env cfg k sender)) = rest
                      \<and> (\<exists>earlier. sender_log (snd (retry_job_step env cfg k sender)) = earlier
                            @ [Email_failed_after_attempts email, Email_permanently_failed email])))"
proof -
  have one: "(1::int) \<le> MAX_EMAIL_RETRY_ATTEMPTS" by (simp add: MAX_EMAIL_RETRY_ATTEMPTS_def)
  from queue_for_retry_result(3) [OF handed one] send_email_attempts(2) [OF first] fresh
  have q: "retry_queue es2 = [msg\<lparr>attempt := Some 1, next_try := Some (fst (time_time c) + 30)\<rparr>]"
    by simp
  have bound: "\<forall>n. length (smtp_attempts (snd (retry_job n env cfg c2 es2)))
               \<le> length (smtp_attempts es) + 1 + nat MAX_EMAIL_RETRY_ATTEMPTS"
  proof
    fix n
    obtain c3 es3 where run: "retry_job n env cfg c2 es2 = (c3, es3)"
      by (cases "retry_job n env cfg c2 es2") auto
    have "sends_left (msg\<lparr>attempt := Some 1, next_try := Some (fst (time_time c) + 30)\<rparr>)
            = nat MAX_EMAIL_RETRY_ATTEMPTS"
      by (simp add: sends_left_def MAX_EMAIL_RETRY_ATTEMPTS_def)
    with q queue_for_retry_result(1) [OF handed] send_email_attempts(1) [OF first]
    have "pending_sends es2 = length (smtp_attempts es) + 1 + nat MAX_EMAIL_RETRY_ATTEMPTS"
      by (simp add: pending_sends_def)
    with retry_job_pending [OF run]
    have "length (smtp_attempts es3) \<le> length (smtp_attempts es) + 1 + nat MAX_EMAIL_RETRY_ATTEMPTS"
      by (simp add: pending_sends_def)
    with run show "length (smtp_attempts (snd (retry_job n env cfg c2 es2)))
                 \<le> length (smtp_attempts es) + 1 + nat MAX_EMAIL_RETRY_ATTEMPTS"
      by simp
  qed
  have step: "\<forall>k sender email rest due a.
             retry_queue sender = email # rest \<and> next_try email = Some due
             \<and> due \<le> fst (time_time k) \<and> attempt email = Some a
             \<and> smtp_server env (length (smtp_attempts sender)) \<noteq> Delivered \<longrightarrow>
             length (smtp_attempts (snd (retry_job_step env cfg k sender)))
               = length (smtp_attempts sender) + 1
             \<and> (if a < MAX_EMAIL_RETRY_ATTEMPTS
                 then retry_queue (snd (retry_job_step env cfg k sender))
                        = rest @ [email\<lparr>attempt := Some (a + 1),
                             next_try := Some (fst (time_time (snd (time_time k))) + 30)\<rparr>]
                 else retry_queue (snd (retry_job_step env cfg k sender)) = rest
                      \<and> (\<exists>earlier. sender_log (snd (retry_job_step env cfg k sender)) = earlier
                            @ [Email_failed_after_attempts email, Email_permanently_failed email]))"
  proof (intro allI, rule impI)
    fix k :: clock and sender :: EmailSender and email :: email_data
      and rest :: "email_data list" and due :: real and a :: int
    assume a: "retry_queue sender = email # rest \<and> next_try email = Some due
               \<and> due \<le> fst (time_time k) \<and> attempt email = Some a
               \<and> smtp_server env (length (smtp_attempts sender)) \<noteq> Delivered"
    obtain c' es' where st: "retry_job_step env cfg k sender = (c', es')"
      by (cases "retry_job_step env cfg k sender") auto
    from a have nd: "\<not> due > fst (time_time k)" by simp
    from retry_job_step_failure [OF _ _ nd _ _ st, of email rest a] a st
    show "length (smtp_attempts (snd (retry_job_step env cfg k sender)))
                 = length (smtp_attempts sender) + 1
               \<and> (if a < MAX_EMAIL_RETRY_ATTEMPTS
                   then retry_queue (snd (retry_job_step env cfg k sender))
                          = rest @ [email\<lparr>attempt := Some (a + 1),
                               next_try := Some (fst (time_time (snd (time_time k))) + 30)\<rparr>]
                   else retry_queue (snd (retry_job_step env cfg k sender)) = rest
                        \<and> (\<exists>earlier. sender_log (snd (retry_job_step env cfg k sender)) = earlier
                              @ [Email_failed_after_attempts email, Email_permanently_failed email]))"
      by simp
  qed
  show ?thesis by (rule conjI [OF q conjI [OF bound step]])
qed

theorem retry_attempts_bounded_witness:
  "retry_queue (snd (queue_for_retry (clock_at 200)
       (snd (send_email example_environment default_settings (new_EmailSender new_RateLimiter)
              [''a@x''] ''subject'' ''body''))
       \<lparr>recipients = [''a@x''], subject = ''subject'', content = ''body'',
        attempt = None, next_try = None\<rparr> 1))
     = [\<lparr>recipients = [''a@x''], subject = ''subject'', content = ''body'',
         attempt = Some 1, next_try = Some 230\<rparr>]
   \<and> length (smtp_attempts (snd (retry_job 10 example_environment default_settings
        (fst (queue_for_retry (clock_at 200)
           (snd (send_email example_environment default_settings (new_EmailSender new_RateLimiter)
                  [''a@x''] ''subject'' ''body''))
           \<lparr>recipients = [''a@x''], subject = ''subject'', content = ''body'',
            attempt = None, next_try = None\<rparr> 1))
        (snd (queue_for_retry (clock_at 200)
           (snd (send_email example_environment default_settings (new_EmailSender new_RateLimiter)
                  [''a@x''] ''subject'' ''body''))
           \<lparr>recipients = [''a@x''], subject = ''subject'', content = ''body'',
            attempt = None, next_try = None\<rparr> 1))))) \<le> 4"
proof -
  let ?es = "new_EmailSender new_RateLimiter"
  let ?msg = "\<lparr>recipients = [''a@x''], subject = ''subject'', content = ''body'',
        attempt = None, next_try = None\<rparr>"
  let ?s = "send_email example_environment default_settings ?es [''a@x''] ''subject'' ''body''"
  let ?q = "queue_for_retry (clock_at 200) (snd ?s) ?msg 1"
  have fresh: "retry_queue ?es = []" by (simp add: new_EmailSender_def)
  have first: "?s = (False, snd ?s)"
    by (simp add: send_email_def example_environment_def Let_def new_EmailSender_def
        default_settings_def)
  have handed: "?q = (fst ?q, snd ?q)" by simp
  from retry_attempts_bounded [OF fresh refl first handed]
  have "retry_queue (snd ?q)
          = [?msg\<lparr>attempt := Some 1, next_try := Some (fst (time_time (clock_at 200)) + 30)\<rparr>]"
    and "length (smtp_attempts (snd (retry_job 10 example_environment default_settings (fst ?q) (snd ?q))))
          \<le> length (smtp_attempts ?es) + 1 + nat MAX_EMAIL_RETRY_ATTEMPTS"
    by blast+
  then show ?thesis
    by (simp add: time_time_def clock_at_def new_EmailSender_def MAX_EMAIL_RETRY_ATTEMPTS_def)
qed

lemma strip_address: "strip ''sudhamshusuri.2015@gmail.com'' = ''sudhamshusuri.2015@gmail.com''"
  by (simp add: strip_def is_space_def)

lemma example_notification_result:
  "example_notification =
     ((clock_every 100)\<lparr>ticks := 3\<rparr>,
      [(''d1'', ''yellow'') \<mapsto> (''sudhamshusuri.2015@gmail.com'', 100)],
      \<lparr>rate_limiter = \<lparr>history = [(''d1'', ''s1'', ''yellow'') \<mapsto> 0]\<rparr>,
       retry_queue =
         [\<lparr>recipients = [''sudhamshusuri.2015@gmail.com''],
           subject = ''[Threshold Breach Alert]'', content = ''<html>'',
           attempt = Some 1, next_try = Some 230\<rparr>],
       smtp_attempts =
         [\<lparr>all_recipients = [''sudhamshusuri.2015@gmail.com'', ''connect@klvin.ai''],
           message_subject = ''[Threshold Breach Alert]'', message_content = ''<html>''\<rparr>],
       sender_log =
         [Inside_process_breaches, Processing_breaches 1, Sending_emails_to_recipients 1,
          Sending_email_with_breaches ''sudhamshusuri.2015@gmail.com'' 1,
          Inside_send_email, Sending_email_to [''sudhamshusuri.2015@gmail.com''],
          Failed_to_send_email, Email_queued_for_retry 1]\<rparr>)"
  by (simp add: example_notification_def process_breaches_def group_by_device_def
      example_breach_def should_send_def lower_yellow new_EmailSender_def new_RateLimiter_def
      time_time_def clock_every_def get_emails_def original_get_emails_def strip_address
      send_email_def queue_for_retry_def example_environment_def default_settings_def
      example_formatter_def MAX_EMAIL_RETRY_ATTEMPTS_def Let_def)

text \<open>
  C6 as stated fails: counted with the first send, a message is attempted
  \<open>MAX_EMAIL_RETRY_ATTEMPTS + 1\<close> times. With a server that refuses everything, the email
  for one breach is sent once by \<open>process_breaches\<close> and three more times by the retry
  thread.
\<close>

theorem four_send_attempts_counterexample:
  "smtp_attempts (snd (snd example_notification))
     = [\<lparr>all_recipients = [''sudhamshusuri.2015@gmail.com'', ''connect@klvin.ai''],
         message_subject = ''[Threshold Breach Alert]'', message_content = ''<html>''\<rparr>]
   \<and> smtp_attempts (snd (retry_job 3 example_environment default_settings
         (fst example_notification) (snd (snd example_notification))))
     = replicate 4
         \<lparr>all_recipients = [''sudhamshusuri.2015@gmail.com'', ''connect@klvin.ai''],
          message_subject = ''[Threshold Breach Alert]'', message_content = ''<html>''\<rparr>
   \<and> MAX_EMAIL_RETRY_ATTEMPTS < 4"
  by (simp add: example_notification_result eval_nat_numeral retry_job_step_def
      time_time_def clock_every_def send_email_def queue_for_retry_def example_environment_def
      default_settings_def MAX_EMAIL_RETRY_ATTEMPTS_def Let_def)

lemma sent_only_to_same:
  "smtp_attempts es' = smtp_attempts es \<Longrightarrow> sent_only_to addr es es'"
  by (simp add: sent_only_to_def)

lemma sent_only_to_trans:
  assumes "sent_only_to addr es es1" and "sent_only_to addr es1 es2"
  shows "sent_only_to addr es es2"
proof -
  from assms obtain n1 n2 where
    "smtp_attempts es1 = smtp_attempts es @ n1" "\<forall>m \<in> set n1. all_recipients m = addr"
    "smtp_attempts es2 = smtp_attempts es1 @ n2" "\<forall>m \<in> set n2. all_recipients m = addr"
    unfolding sent_only_to_def by blast
  then have "smtp_attempts es2 = smtp_attempts es @ (n1 @ n2)
             \<and> (\<forall>m \<in> set (n1 @ n2). all_recipients m = addr)"
    by auto
  then show ?thesis unfolding sent_only_to_def by blast
qed

lemma send_email_test_mode:
  assumes "USE_TEST_EMAIL cfg" and "send_email env cfg es rcpts subj body = (ok, es')"
  shows "smtp_attempts es' = smtp_attempts es
           @ [\<lparr>all_recipients = [TEST_EMAIL cfg], message_subject = subj, message_content = body\<rparr>]"
  using assms by (auto simp: send_email_def Let_def split: smtp_result.splits)

lemma send_email_sent_only_to:
  assumes "USE_TEST_EMAIL cfg" and "send_email env cfg es rcpts subj body = (ok, es')"
  shows "sent_only_to [TEST_EMAIL cfg] es es'"
  using send_email_test_mode [OF assms] by (simp add: sent_only_to_def)

lemma send_emails_sent_only_to:
  assumes "USE_TEST_EMAIL cfg"
  shows "send_emails env cfg fmt c es todo = (c', es') \<Longrightarrow> sent_only_to [TEST_EMAIL cfg] es es'"
proof (induction todo arbitrary: c es)
  case Nil
  then show ?case by (simp add: sent_only_to_same)
next
  case (Cons x todo)
  obtain r bs where x: "x = (r, bs)" by (cases x) auto
  let ?subj = "create_email_subject fmt bs"
  let ?html = "create_html_content fmt bs"
  let ?es1 = "es\<lparr>sender_log := sender_log es @ [Sending_email_with_breaches r (length bs)]\<rparr>"
  obtain ok es2 where se: "send_email env cfg ?es1 [r] ?subj ?html = (ok, es2)"
    by (cases "send_email env cfg ?es1 [r] ?subj ?html") auto
  let ?msg = "\<lparr>recipients = [r], subject = ?subj, content = ?html, attempt = None, next_try = None\<rparr>"
  obtain c1 es3 where q: "(if \<not> ok then queue_for_retry c es2 ?msg 1 else (c, es2)) = (c1, es3)"
    by (cases "if \<not> ok then queue_for_retry c es2 ?msg 1 else (c, es2)") auto
  have a: "sent_only_to [TEST_EMAIL cfg] es ?es1" by (simp add: sent_only_to_same)
  have b: "sent_only_to [TEST_EMAIL cfg] ?es1 es2" by (rule send_email_sent_only_to [OF assms se])
  have "smtp_attempts es3 = smtp_attempts es2"
    using q queue_for_retry_result(1) by (auto split: if_splits)
  then have d: "sent_only_to [TEST_EMAIL cfg] es2 es3" by (rule sent_only_to_same)
  from Cons.prems x se q have "send_emails env cfg fmt c1 es3 todo = (c', es')"
    by (simp add: Let_def)
  from Cons.IH [OF this] a b d show ?case by (blast intro: sent_only_to_trans)
qed

lemma resolve_recipients_attempts:
  "resolve_recipients cfg c cache es ets todo = (c', cache', es', ets')
     \<Longrightarrow> smtp_attempts es' = smtp_attempts es"
proof (induction todo arbitrary: c cache es ets)
  case Nil
  then show ?case by simp
next
  case (Cons x todo)
  obtain did bs where x: "x = (did, bs)" by (cases x) auto
  obtain fl c1 rl1 where f: "filter_breaches cfg c (rate_limiter es) bs = (fl, c1, rl1)"
    by (cases "filter_breaches cfg c (rate_limiter es) bs") auto
  show ?case
  proof (cases "fl = []")
    case True
    with Cons.prems x f have "resolve_recipients cfg c1 cache
             (es\<lparr>rate_limiter := rl1, sender_log := sender_log es @ [No_breaches_passed_rate_limiting did]\<rparr>)
             ets todo = (c', cache', es', ets')"
      by (simp add: Let_def)
    from Cons.IH [OF this] show ?thesis by simp
  next
    case False
    obtain c2 cache2 ets2 where a: "add_recipients c1 cache ets did fl = (c2, cache2, ets2)"
      by (cases "add_recipients c1 cache ets did fl") auto
    with False Cons.prems x f
    have "resolve_recipients cfg c2 cache2 (es\<lparr>rate_limiter := rl1\<rparr>) ets2 todo = (c', cache', es', ets')"
      by (simp add: Let_def)
    from Cons.IH [OF this] show ?thesis by simp
  qed
qed

lemma process_breaches_sent_only_to:
  assumes "USE_TEST_EMAIL cfg"
  shows "sent_only_to [TEST_EMAIL cfg] es (snd (snd (process_breaches env cfg fmt c cache es breaches)))"
proof -
  let ?es0 = "es\<lparr>sender_log := sender_log es
                   @ [Inside_process_breaches, Processing_breaches (length breaches)]\<rparr>"
  obtain c1 cache1 es1 ets where r: "resolve_recipients cfg c cache ?es0 [] (group_by_device breaches)
      = (c1, cache1, es1, ets)"
    by (cases "resolve_recipients cfg c cache ?es0 [] (group_by_device breaches)") auto
  from resolve_recipients_attempts [OF r] have s1: "smtp_attempts es1 = smtp_attempts es" by simp
  show ?thesis
  proof (cases "ets = []")
    case True
    with r s1 show ?thesis
      by (simp add: process_breaches_def Let_def sent_only_to_same)
  next
    case False
    let ?es2 = "es1\<lparr>sender_log := sender_log es1 @ [Sending_emails_to_recipients (length ets)]\<rparr>"
    obtain c2 es3 where se: "send_emails env cfg fmt c1 ?es2 ets = (c2, es3)"
      by (cases "send_emails env cfg fmt c1 ?es2 ets") auto
    have "sent_only_to [TEST_EMAIL cfg] es ?es2" using s1 by (simp add: sent_only_to_same)
    with send_emails_sent_only_to [OF assms se]
    have "sent_only_to [TEST_EMAIL cfg] es es3" by (blast intro: sent_only_to_trans)
    with False r se show ?thesis by (simp add: process_breaches_def Let_def)
  qed
qed

lemma retry_job_step_sent_only_to:
  assumes "USE_TEST_EMAIL cfg" and "retry_job_step env cfg c es = (c', es')"
  shows "sent_only_to [TEST_EMAIL cfg] es es'"
proof (cases "retry_queue es")
  case Nil
  with assms show ?thesis by (simp add: retry_job_step_def sent_only_to_same)
next
  case (Cons email rest)
  show ?thesis
  proof (cases "next_try email")
    case None
    with Cons assms show ?thesis by (auto simp: retry_job_step_def Let_def sent_only_to_same)
  next
    case (Some due)
    obtain t c1 where tt: "time_time c = (t, c1)" by (cases "time_time c") auto
    show ?thesis
    proof (cases "due > t")
      case True
      with Cons Some tt assms show ?thesis
        by (auto simp: retry_job_step_def Let_def sent_only_to_same)
    next
      case False
      let ?es1 = "es\<lparr>retry_queue := rest\<rparr>"
      obtain ok es2 where se: "send_email env cfg ?es1 (recipients email) (subject email) (content email) = (ok, es2)"
        by (cases "send_email env cfg ?es1 (recipients email) (subject email) (content email)") auto
      have a: "sent_only_to [TEST_EMAIL cfg] es ?es1" by (simp add: sent_only_to_same)
      have b: "sent_only_to [TEST_EMAIL cfg] ?es1 es2"
        by (rule send_email_sent_only_to [OF assms(1) se])
      have "smtp_attempts es' = smtp_attempts es2"
        using Cons Some tt False se assms(2) queue_for_retry_result(1)
        by (auto simp: retry_job_step_def Let_def split: if_splits option.splits)
      then have "sent_only_to [TEST_EMAIL cfg] es2 es'" by (rule sent_only_to_same)
      with a b show ?thesis by (blast intro: sent_only_to_trans)
    qed
  qed
qed

lemma retry_job_sent_only_to:
  assumes "USE_TEST_EMAIL cfg"
  shows "retry_job n env cfg c es = (c', es') \<Longrightarrow> sent_only_to [TEST_EMAIL cfg] es es'"
proof (induction n arbitrary: c es)
  case 0
  then show ?case by (simp add: sent_only_to_same)
next
  case (Suc n)
  obtain c1 es1 where st: "retry_job_step env cfg c es = (c1, es1)"
    by (cases "retry_job_step env cfg c es") auto
  with Suc.prems have "retry_job n env cfg c1 es1 = (c', es')" by simp
  from Suc.IH [OF this] retry_job_step_sent_only_to [OF assms st]
  show ?case by (blast intro: sent_only_to_trans)
qed

lemma send_email_logs_recipients:
  "Sending_email_to rcpts \<in> set (sender_log (snd (send_email env cfg es rcpts subj body)))"
  by (simp add: send_email_def Let_def split: smtp_result.splits)

lemma queue_for_retry_keeps_log:
  "x \<in> set (sender_log es) \<Longrightarrow> x \<in> set (sender_log (snd (queue_for_retry c es email k)))"
  by (simp add: queue_for_retry_def Let_def split: prod.splits)

lemma process_breaches_resolves:
  assumes "history (rate_limiter es) (device_id b, sensor_id b, lower (threshold_type b)) = None"
  shows "fst (snd (process_breaches env cfg fmt c Map.empty es [b])) (device_id b, threshold_type b)
           = Some (''sudhamshusuri.2015@gmail.com'', fst (time_time (snd (time_time c))))
       \<and> Sending_email_to [''sudhamshusuri.2015@gmail.com'']
           \<in> set (sender_log (snd (snd (process_breaches env cfg fmt c Map.empty es [b]))))"
proof -
  let ?es0 = "es\<lparr>sender_log := sender_log es @ [Inside_process_breaches, Processing_breaches (Suc 0)]\<rparr>"
  let ?addr = "''sudhamshusuri.2015@gmail.com''"
  let ?c1 = "snd (time_time c)"
  let ?c2 = "snd (time_time ?c1)"
  let ?rl = "(rate_limiter es)\<lparr>history := (history (rate_limiter es))
                ((device_id b, sensor_id b, lower (threshold_type b)) \<mapsto> fst (time_time c))\<rparr>"
  have f: "filter_breaches cfg c (rate_limiter es) [b] = ([b], ?c1, ?rl)"
    using assms by (simp add: should_send_def Let_def split: prod.splits)
  have g: "get_emails ?c1 Map.empty (device_id b) (threshold_type b)
             = (?addr, ?c2, [(device_id b, threshold_type b) \<mapsto> (?addr, fst (time_time ?c1))])"
    by (simp add: get_emails_def original_get_emails_def Let_def split: prod.splits)
  have r: "resolve_recipients cfg c Map.empty ?es0 [] (group_by_device [b])
             = (?c2, [(device_id b, threshold_type b) \<mapsto> (?addr, fst (time_time ?c1))],
                ?es0\<lparr>rate_limiter := ?rl\<rparr>, [(?addr, [b])])"
    by (simp add: group_by_device_def f g strip_address Let_def del: filter_breaches.simps)
  let ?es2 = "?es0\<lparr>rate_limiter := ?rl,
                    sender_log := sender_log ?es0 @ [Sending_emails_to_recipients (Suc 0),
                       Sending_email_with_breaches ?addr (Suc 0)]\<rparr>"
  let ?subj = "create_email_subject fmt [b]"
  let ?html = "create_html_content fmt [b]"
  have l: "Sending_email_to [?addr] \<in> set (sender_log (snd (send_email env cfg ?es2 [?addr] ?subj ?html)))"
    by (rule send_email_logs_recipients)
  show ?thesis
    using l queue_for_retry_keeps_log [OF l]
    by (simp add: process_breaches_def r Let_def case_prod_beta)
qed

subsection \<open>Recipient resolution for a whole batch\<close>

text \<open>
  \<open>get_emails\<close> answers from the cache or from the store and keeps the cache an image of
  the store; \<open>add_recipients\<close> looks every breach it is given up and files it under the
  address found. So each breach that passes the rate limit is resolved, whatever the batch,
  the cache and the limiter's history.
\<close>

lemma get_emails_cases:
  assumes "get_emails c cache did ttype = (found, c', cache')"
  shows "(cache' = cache \<and> (\<exists>t. cache (did, ttype) = Some (found, t)))
       \<or> (found = ''sudhamshusuri.2015@gmail.com''
          \<and> (\<exists>t. cache' = cache((did, ttype) \<mapsto> (''sudhamshusuri.2015@gmail.com'', t))))"
  using assms
  by (auto simp: get_emails_def original_get_emails_def Let_def
      split: option.splits prod.splits if_splits)

lemma get_emails_from_store:
  assumes ok: "emails_cache_from_store cache"
    and g: "get_emails c cache did ttype = (found, c', cache')"
  shows "found = ''sudhamshusuri.2015@gmail.com''"
    and "emails_cache_from_store cache'"
    and "(did, ttype) \<in> dom cache'"
    and "dom cache \<subseteq> dom cache'"
proof -
  from get_emails_cases [OF g]
  consider (hit) t where "cache' = cache" "cache (did, ttype) = Some (found, t)"
    | (miss) t where "found = ''sudhamshusuri.2015@gmail.com''"
        "cache' = cache((did, ttype) \<mapsto> (''sudhamshusuri.2015@gmail.com'', t))"
    by blast
  then have "found = ''sudhamshusuri.2015@gmail.com'' \<and> emails_cache_from_store cache'
       \<and> (did, ttype) \<in> dom cache' \<and> dom cache \<subseteq> dom cache'"
  proof cases
    case hit
    with ok have "found = ''sudhamshusuri.2015@gmail.com''"
      unfolding emails_cache_from_store_def original_get_emails_def by blast
    with hit ok show ?thesis by auto
  next
    case miss
    have "emails_cache_from_store cache'"
      unfolding emails_cache_from_store_def
    proof (intro allI impI)
      fix d tt v t'
      assume a: "cache' (d, tt) = Some (v, t')"
      show "v = original_get_emails d tt"
      proof (cases "(d, tt) = (did, ttype)")
        case True
        with a miss show ?thesis by (simp add: original_get_emails_def)
      next
        case False
        with a miss have "cache (d, tt) = Some (v, t')" by (simp split: if_splits)
        with ok show ?thesis unfolding emails_cache_from_store_def by blast
      qed
    qed
    with miss show ?thesis by auto
  qed
  then show "found = ''sudhamshusuri.2015@gmail.com''"
    and "emails_cache_from_store cache'"
    and "(did, ttype) \<in> dom cache'"
    and "dom cache \<subseteq> dom cache'"
    by simp_all
qed

lemma add_recipients_spec:
  assumes "emails_cache_from_store cache"
    and "add_recipients c cache ets did bs = (c', cache', ets')"
  shows "emails_cache_from_store cache' \<and> dom cache \<subseteq> dom cache'
       \<and> (\<forall>b \<in> set bs. (did, threshold_type b) \<in> dom cache')
       \<and> ets' = foldl (\<lambda>d b. dict_append d ''sudhamshusuri.2015@gmail.com'' b) ets bs"
  using assms
proof (induction bs arbitrary: c cache ets)
  case Nil
  then show ?case by simp
next
  case (Cons b bs)
  obtain found c1 cache1 where g: "get_emails c cache did (threshold_type b) = (found, c1, cache1)"
    by (cases "get_emails c cache did (threshold_type b)") auto
  note e = get_emails_from_store [OF Cons.prems(1) g]
  from Cons.prems(2) g e(1)
  have rest: "add_recipients c1 cache1 (dict_append ets ''sudhamshusuri.2015@gmail.com'' b) did bs
                = (c', cache', ets')"
    by (simp add: Let_def strip_address)
  from Cons.IH [OF e(2) rest] e(3,4) show ?case by auto
qed

lemma add_recipients_clock_cache:
  "fst (add_recipients c cache ets did bs) = fst (add_recipients c cache ets2 did bs)
   \<and> fst (snd (add_recipients c cache ets did bs)) = fst (snd (add_recipients c cache ets2 did bs))"
  by (induction bs arbitrary: c cache ets ets2) (simp_all add: Let_def split: prod.splits)

lemma filter_breaches_subset:
  "set (fst (filter_breaches cfg c rl bs)) \<subseteq> set bs"
proof (induction bs arbitrary: c rl)
  case Nil
  then show ?case by simp
next
  case (Cons b bs)
  obtain ok c1 rl1 where s: "should_send cfg c rl (device_id b) (sensor_id b) (threshold_type b) = (ok, c1, rl1)"
    by (cases "should_send cfg c rl (device_id b) (sensor_id b) (threshold_type b)") auto
  from Cons.IH [of c1 rl1] s show ?case
    by (auto simp: Let_def case_prod_beta)
qed

lemma dict_append_single:
  "foldl (\<lambda>d b. dict_append d k b) [(k, xs)] ys = [(k, xs @ ys)]"
  by (induction ys arbitrary: xs) simp_all

lemma dict_append_from_empty:
  "foldl (\<lambda>d b. dict_append d k b) [] ys = (if ys = [] then [] else [(k, ys)])"
proof (cases ys)
  case Nil
  then show ?thesis by simp
next
  case (Cons y ys')
  then show ?thesis using dict_append_single [of k "[y]" ys'] by simp
qed

lemma dict_append_keys:
  assumes "list_all (\<lambda>(k', vs). list_all (\<lambda>v. key v = k') vs) d"
  shows "list_all (\<lambda>(k', vs). list_all (\<lambda>v. key v = k') vs) (dict_append d (key b) b)"
  using assms by (induction d) auto

lemma group_by_device_keys:
  "\<forall>(did, bs) \<in> set (group_by_device breaches). \<forall>b \<in> set bs. device_id b = did"
proof -
  have "list_all (\<lambda>(k', vs). list_all (\<lambda>v. device_id v = k') vs) d \<Longrightarrow>
        list_all (\<lambda>(k', vs). list_all (\<lambda>v. device_id v = k') vs)
          (foldl (\<lambda>d b. dict_append d (device_id b) b) d breaches)" for d
  proof (induction breaches arbitrary: d)
    case Nil
    then show ?case by simp
  next
    case (Cons b breaches)
    from Cons.IH [OF dict_append_keys [OF Cons.prems, of b]] show ?case by simp
  qed
  from this [of "[]"] show ?thesis
    by (auto simp: group_by_device_def list_all_iff)
qed

lemma resolve_recipients_spec:
  assumes "emails_cache_from_store cache"
    and "resolve_recipients cfg c cache es ets todo = (c', cache', es', ets')"
    and "\<forall>(did, bs) \<in> set todo. \<forall>b \<in> set bs. device_id b = did"
  shows "emails_cache_from_store cache' \<and> dom cache \<subseteq> dom cache'
       \<and> (\<forall>b \<in> set (passed_rate_limit cfg c cache (rate_limiter es) todo).
             (device_id b, threshold_type b) \<in> dom cache')
       \<and> ets' = foldl (\<lambda>d b. dict_append d ''sudhamshusuri.2015@gmail.com'' b) ets
                  (passed_rate_limit cfg c cache (rate_limiter es) todo)"
  using assms
proof (induction todo arbitrary: c cache es ets)
  case Nil
  then show ?case by simp
next
  case (Cons x todo)
  obtain did bs where x: "x = (did, bs)" by (cases x) auto
  obtain fl c1 rl1 where f: "filter_breaches cfg c (rate_limiter es) bs = (fl, c1, rl1)"
    by (cases "filter_breaches cfg c (rate_limiter es) bs") auto
  obtain c2 cache2 ets2 where a: "add_recipients c1 cache ets did fl = (c2, cache2, ets2)"
    by (cases "add_recipients c1 cache ets did fl") auto
  obtain found0 where a0: "add_recipients c1 cache [] did fl = (c2, cache2, found0)"
    using add_recipients_clock_cache [of c1 cache ets did fl "[]"] a
    by (cases "add_recipients c1 cache [] did fl") auto
  note sp = add_recipients_spec [OF Cons.prems(1) a]
  from filter_breaches_subset [of cfg c "rate_limiter es" bs] f have sub: "set fl \<subseteq> set bs" by simp
  from Cons.prems(3) x have dev: "\<forall>b \<in> set bs. device_id b = did"
    and rest: "\<forall>(did, bs) \<in> set todo. \<forall>b \<in> set bs. device_id b = did"
    by auto
  have p: "passed_rate_limit cfg c cache (rate_limiter es) (x # todo)
             = fl @ passed_rate_limit cfg c2 cache2 rl1 todo"
    by (simp add: x f a0)
  obtain es1 where es1: "rate_limiter es1 = rl1"
    and run: "resolve_recipients cfg c2 cache2 es1 ets2 todo = (c', cache', es', ets')"
  proof (cases "fl = []")
    case True
    with a have "c2 = c1" "cache2 = cache" "ets2 = ets" by simp_all
    with True Cons.prems(2) x f
    have "resolve_recipients cfg c2 cache2
             (es\<lparr>rate_limiter := rl1,
                 sender_log := sender_log es @ [No_breaches_passed_rate_limiting did]\<rparr>)
             ets2 todo = (c', cache', es', ets')"
      by (simp add: Let_def)
    then show ?thesis by (rule that [rotated]) simp
  next
    case False
    with Cons.prems(2) x f a
    have "resolve_recipients cfg c2 cache2 (es\<lparr>rate_limiter := rl1\<rparr>) ets2 todo = (c', cache', es', ets')"
      by (simp add: Let_def)
    then show ?thesis by (rule that [rotated]) simp
  qed
  from sp have ok2: "emails_cache_from_store cache2" by simp
  note ih = Cons.IH [OF ok2 run rest, unfolded es1]
  from sp ih have dom: "dom cache \<subseteq> dom cache'" by blast
  have "\<forall>b \<in> set fl. (device_id b, threshold_type b) \<in> dom cache'"
  proof
    fix b assume b: "b \<in> set fl"
    with sub dev have "device_id b = did" by blast
    moreover from sp b have "(did, threshold_type b) \<in> dom cache2" by blast
    ultimately show "(device_id b, threshold_type b) \<in> dom cache'" using ih by blast
  qed
  with ih sp dom show ?case by (simp add: p del: passed_rate_limit.simps) blast
qed

lemma send_email_keeps_log:
  "x \<in> set (sender_log es) \<Longrightarrow> x \<in> set (sender_log (snd (send_email env cfg es rcpts subj body)))"
  by (simp add: send_email_def Let_def split: smtp_result.splits)

lemma send_emails_single_log:
  "Sending_email_with_breaches r (length bs) \<in> set (sender_log (snd (send_emails env cfg fmt c es [(r, bs)])))
   \<and> Sending_email_to [r] \<in> set (sender_log (snd (send_emails env cfg fmt c es [(r, bs)])))"
proof -
  let ?es1 = "es\<lparr>sender_log := sender_log es @ [Sending_email_with_breaches r (length bs)]\<rparr>"
  let ?s = "send_email env cfg ?es1 [r] (create_email_subject fmt bs) (create_html_content fmt bs)"
  have a: "Sending_email_with_breaches r (length bs) \<in> set (sender_log (snd ?s))"
    by (rule send_email_keeps_log) simp
  have b: "Sending_email_to [r] \<in> set (sender_log (snd ?s))"
    by (rule send_email_logs_recipients)
  from a b queue_for_retry_keeps_log [OF a] queue_for_retry_keeps_log [OF b]
  show ?thesis by (simp add: Let_def case_prod_beta)
qed

lemma process_breaches_resolves_all:
  assumes ok: "emails_cache_from_store cache"
    and p: "passed = passed_rate_limit cfg c cache (rate_limiter es) (group_by_device breaches)"
  shows "(\<forall>b \<in> set passed. \<exists>t.
            fst (snd (process_breaches env cfg fmt c cache es breaches)) (device_id b, threshold_type b)
              = Some (''sudhamshusuri.2015@gmail.com'', t))
       \<and> (passed \<noteq> [] \<longrightarrow>
            Sending_email_with_breaches ''sudhamshusuri.2015@gmail.com'' (length passed)
              \<in> set (sender_log (snd (snd (process_breaches env cfg fmt c cache es breaches))))
            \<and> Sending_email_to [''sudhamshusuri.2015@gmail.com'']
              \<in> set (sender_log (snd (snd (process_breaches env cfg fmt c cache es breaches)))))"
proof -
  let ?addr = "''sudhamshusuri.2015@gmail.com''"
  let ?es0 = "es\<lparr>sender_log := sender_log es
                   @ [Inside_process_breaches, Processing_breaches (length breaches)]\<rparr>"
  obtain c1 cache1 es1 ets where r: "resolve_recipients cfg c cache ?es0 [] (group_by_device breaches)
      = (c1, cache1, es1, ets)"
    by (cases "resolve_recipients cfg c cache ?es0 [] (group_by_device breaches)") auto
  from resolve_recipients_spec [OF ok r group_by_device_keys] p
  have ok1: "emails_cache_from_store cache1"
    and dom: "\<forall>b \<in> set passed. (device_id b, threshold_type b) \<in> dom cache1"
    and ets: "ets = (if passed = [] then [] else [(?addr, passed)])"
    by (simp_all add: dict_append_from_empty)
  have cache: "fst (snd (process_breaches env cfg fmt c cache es breaches)) = cache1"
    using r by (simp add: process_breaches_def Let_def case_prod_beta)
  have first: "\<forall>b \<in> set passed. \<exists>t. cache1 (device_id b, threshold_type b) = Some (?addr, t)"
  proof
    fix b assume "b \<in> set passed"
    with dom obtain v t where "cache1 (device_id b, threshold_type b) = Some (v, t)" by fastforce
    with ok1 show "\<exists>t. cache1 (device_id b, threshold_type b) = Some (?addr, t)"
      unfolding emails_cache_from_store_def original_get_emails_def by blast
  qed
  have second: "passed \<noteq> [] \<longrightarrow>
            Sending_email_with_breaches ?addr (length passed)
              \<in> set (sender_log (snd (snd (process_breaches env cfg fmt c cache es breaches))))
            \<and> Sending_email_to [?addr]
              \<in> set (sender_log (snd (snd (process_breaches env cfg fmt c cache es breaches))))"
  proof
    assume ne: "passed \<noteq> []"
    let ?es2 = "es1\<lparr>sender_log := sender_log es1 @ [Sending_emails_to_recipients (Suc 0)]\<rparr>"
    from ne ets r
    have "snd (snd (process_breaches env cfg fmt c cache es breaches))
            = snd (send_emails env cfg fmt c1 ?es2 [(?addr, passed)])"
      by (simp add: process_breaches_def Let_def case_prod_beta)
    with send_emails_single_log [of ?addr passed env cfg fmt c1 ?es2]
    show "Sending_email_with_breaches ?addr (length passed)
              \<in> set (sender_log (snd (snd (process_breaches env cfg fmt c cache es breaches))))
            \<and> Sending_email_to [?addr]
              \<in> set (sender_log (snd (snd (process_breaches env cfg fmt c cache es breaches))))"
      by simp
  qed
  from first second cache show ?thesis by simp
qed

lemma example_batch_grouped:
  "group_by_device [example_breach, example_red_breach]
     = [(''d1'', [example_breach, example_red_breach])]"
  by (simp add: group_by_device_def example_breach_def example_red_breach_def)

lemma example_batch_passes:
  "passed_rate_limit test_settings (clock_every 100) Map.empty new_RateLimiter
       [(''d1'', [example_breach, example_red_breach])]
     = [example_breach, example_red_breach]"
  by (simp add: should_send_def new_RateLimiter_def time_time_def clock_every_def Let_def
      lower_yellow lower_red example_breach_def example_red_breach_def)

text \<open>
  C8, as the code has it. With the test-mode flag set, every send attempt is addressed to
  exactly the configured test address, without the logger addresses: the one
  \<open>send_email\<close> makes, and so all those made by \<open>process_breaches\<close> and by the retry
  thread. The replacement is made inside \<open>send_email\<close>, after the recipients have been
  resolved: for every breach of a batch that passes the rate limit, \<open>process_breaches\<close>
  still resolves the recipient through \<open>get_emails\<close> (the emails cache holds the resolved
  address for the breach's device and type afterwards), the email it composes reports all
  these breaches, and the resolved address is written to the log.
\<close>

theorem test_mode_envelope:
  assumes "USE_TEST_EMAIL cfg"
  shows "smtp_attempts (snd (send_email env cfg es rcpts subj body))
           = smtp_attempts es @ [\<lparr>all_recipients = [TEST_EMAIL cfg], message_subject = subj,
                                   message_content = body\<rparr>]
       \<and> sent_only_to [TEST_EMAIL cfg] es (snd (snd (process_breaches env cfg fmt c cache es breaches)))
       \<and> sent_only_to [TEST_EMAIL cfg] es (snd (retry_job n env cfg c es))
       \<and> (history (rate_limiter es) (device_id b, sensor_id b, lower (threshold_type b)) = None \<longrightarrow>
            fst (snd (process_breaches env cfg fmt c Map.empty es [b])) (device_id b, threshold_type b)
              = Some (''sudhamshusuri.2015@gmail.com'', fst (time_time (snd (time_time c))))
            \<and> Sending_email_to [''sudhamshusuri.2015@gmail.com'']
                \<in> set (sender_log (snd (snd (process_breaches env cfg fmt c Map.empty es [b])))))
       \<and> (emails_cache_from_store cache \<longrightarrow>
            (\<forall>p \<in> set (passed_rate_limit cfg c cache (rate_limiter es) (group_by_device breaches)).
               \<exists>t. fst (snd (process_breaches env cfg fmt c cache es breaches))
                      (device_id p, threshold_type p)
                    = Some (''sudhamshusuri.2015@gmail.com'', t))
            \<and> (passed_rate_limit cfg c cache (rate_limiter es) (group_by_device breaches) \<noteq> [] \<longrightarrow>
                 Sending_email_with_breaches ''sudhamshusuri.2015@gmail.com''
                     (length (passed_rate_limit cfg c cache (rate_limiter es)
                        (group_by_device breaches)))
                   \<in> set (sender_log (snd (snd (process_breaches env cfg fmt c cache es breaches))))
                 \<and> Sending_email_to [''sudhamshusuri.2015@gmail.com'']
                   \<in> set (sender_log (snd (snd (process_breaches env cfg fmt c cache es breaches))))))"
proof -
  have a: "smtp_attempts (snd (send_email env cfg es rcpts subj body))
           = smtp_attempts es @ [\<lparr>all_recipients = [TEST_EMAIL cfg], message_subject = subj,
                                   message_content = body\<rparr>]"
    by (rule send_email_test_mode [OF assms, of env _ rcpts _ _ "fst (send_email env cfg es rcpts subj body)"])
      simp
  have b: "sent_only_to [TEST_EMAIL cfg] es (snd (snd (process_breaches env cfg fmt c cache es breaches)))"
    by (rule process_breaches_sent_only_to [OF assms])
  have d: "sent_only_to [TEST_EMAIL cfg] es (snd (retry_job n env cfg c es))"
    by (rule retry_job_sent_only_to [OF assms, of n env c es "fst (retry_job n env cfg c es)"]) simp
  have e: "history (rate_limiter es) (device_id b, sensor_id b, lower (threshold_type b)) = None \<longrightarrow>
            fst (snd (process_breaches env cfg fmt c Map.empty es [b])) (device_id b, threshold_type b)
              = Some (''sudhamshusuri.2015@gmail.com'', fst (time_time (snd (time_time c))))
            \<and> Sending_email_to [''sudhamshusuri.2015@gmail.com'']
                \<in> set (sender_log (snd (snd (process_breaches env cfg fmt c Map.empty es [b]))))"
    by (rule impI) (rule process_breaches_resolves)
  have f: "emails_cache_from_store cache \<longrightarrow>
            (\<forall>p \<in> set (passed_rate_limit cfg c cache (rate_limiter es) (group_by_device breaches)).
               \<exists>t. fst (snd (process_breaches env cfg fmt c cache es breaches))
                      (device_id p, threshold_type p)
                    = Some (''sudhamshusuri.2015@gmail.com'', t))
            \<and> (passed_rate_limit cfg c cache (rate_limiter es) (group_by_device breaches) \<noteq> [] \<longrightarrow>
                 Sending_email_with_breaches ''sudhamshusuri.2015@gmail.com''
                     (length (passed_rate_limit cfg c cache (rate_limiter es)
                        (group_by_device breaches)))
                   \<in> set (sender_log (snd (snd (process_breaches env cfg fmt c cache es breaches))))
                 \<and> Sending_email_to [''sudhamshusuri.2015@gmail.com'']
                   \<in> set (sender_log (snd (snd (process_breaches env cfg fmt c cache es breaches)))))"
    by (rule impI) (rule process_breaches_resolves_all [OF _ refl])
  show ?thesis by (rule conjI [OF a conjI [OF b conjI [OF d conjI [OF e f]]]])
qed

lemma test_notification_result:
  "process_breaches example_environment test_settings example_formatter (clock_every 100)
       Map.empty (new_EmailSender new_RateLimiter) [example_breach]
   = ((clock_every 100)\<lparr>ticks := 3\<rparr>,
      [(''d1'', ''yellow'') \<mapsto> (''sudhamshusuri.2015@gmail.com'', 100)],
      \<lparr>rate_limiter = \<lparr>history = [(''d1'', ''s1'', ''yellow'') \<mapsto> 0]\<rparr>,
       retry_queue =
         [\<lparr>recipients = [''sudhamshusuri.2015@gmail.com''],
           subject = ''[Threshold Breach Alert]'', content = ''<html>'',
           attempt = Some 1, next_try = Some 230\<rparr>],
       smtp_attempts =
         [\<lparr>all_recipients = [''test@example.com''],
           message_subject = ''[Threshold Breach Alert]'', message_content = ''<html>''\<rparr>],
       sender_log =
         [Inside_process_breaches, Processing_breaches 1, Sending_emails_to_recipients 1,
          Sending_email_with_breaches ''sudhamshusuri.2015@gmail.com'' 1,
          Inside_send_email, Sending_email_to [''sudhamshusuri.2015@gmail.com''],
          Using_test_email_address ''test@example.com'',
          Failed_to_send_email, Email_queued_for_retry 1]\<rparr>)"
  by (simp add: process_breaches_def group_by_device_def
      example_breach_def should_send_def lower_yellow new_EmailSender_def new_RateLimiter_def
      time_time_def clock_every_def get_emails_def original_get_emails_def strip_address
      send_email_def queue_for_retry_def example_environment_def default_settings_def
      test_settings_def example_formatter_def MAX_EMAIL_RETRY_ATTEMPTS_def Let_def)

theorem test_mode_envelope_witness:
  "smtp_attempts (snd (send_email example_environment test_settings (new_EmailSender new_RateLimiter)
       [''a@x'', ''b@y''] ''subject'' ''body''))
     = [\<lparr>all_recipients = [''test@example.com''], message_subject = ''subject'',
         message_content = ''body''\<rparr>]
   \<and> sent_only_to [''test@example.com''] (new_EmailSender new_RateLimiter)
        (snd (snd (process_breaches example_environment test_settings example_formatter
           (clock_every 100) Map.empty (new_EmailSender new_RateLimiter)
           [example_breach, example_red_breach])))
   \<and> sent_only_to [''test@example.com''] (new_EmailSender new_RateLimiter)
        (snd (retry_job 5 example_environment test_settings (clock_every 100)
           (new_EmailSender new_RateLimiter)))
   \<and> history (rate_limiter (new_EmailSender new_RateLimiter))
        (device_id example_breach, sensor_id example_breach, lower (threshold_type example_breach))
       = None
   \<and> fst (snd (process_breaches example_environment test_settings example_formatter
           (clock_every 100) Map.empty (new_EmailSender new_RateLimiter) [example_breach]))
        (device_id example_breach, threshold_type example_breach)
       = Some (''sudhamshusuri.2015@gmail.com'', 100)
   \<and> emails_cache_from_store Map.empty
   \<and> passed_rate_limit test_settings (clock_every 100) Map.empty
        (rate_limiter (new_EmailSender new_RateLimiter))
        (group_by_device [example_breach, example_red_breach])
       = [example_breach, example_red_breach]
   \<and> (\<exists>t. fst (snd (process_breaches example_environment test_settings example_formatter
           (clock_every 100) Map.empty (new_EmailSender new_RateLimiter)
           [example_breach, example_red_breach])) (''d1'', ''yellow'')
         = Some (''sudhamshusuri.2015@gmail.com'', t))
   \<and> (\<exists>t. fst (snd (process_breaches example_environment test_settings example_formatter
           (clock_every 100) Map.empty (new_EmailSender new_RateLimiter)
           [example_breach, example_red_breach])) (''d1'', ''red'')
         = Some (''sudhamshusuri.2015@gmail.com'', t))
   \<and> Sending_email_with_breaches ''sudhamshusuri.2015@gmail.com'' 2
        \<in> set (sender_log (snd (snd (process_breaches example_environment test_settings
             example_formatter (clock_every 100) Map.empty (new_EmailSender new_RateLimiter)
             [example_breach, example_red_breach]))))"
proof -
  have t: "USE_TEST_EMAIL test_settings" by (simp add: test_settings_def)
  have a: "TEST_EMAIL test_settings = ''test@example.com''"
    by (simp add: test_settings_def default_settings_def)
  have ok: "emails_cache_from_store Map.empty" by (simp add: emails_cache_from_store_def)
  have rl: "rate_limiter (new_EmailSender new_RateLimiter) = new_RateLimiter"
    by (simp add: new_EmailSender_def)
  have p: "passed_rate_limit test_settings (clock_every 100) Map.empty
        (rate_limiter (new_EmailSender new_RateLimiter))
        (group_by_device [example_breach, example_red_breach])
       = [example_breach, example_red_breach]"
    by (simp only: rl example_batch_grouped example_batch_passes)
  have k: "device_id example_breach = ''d1''" "threshold_type example_breach = ''yellow''"
    "sensor_id example_breach = ''s1''"
    "device_id example_red_breach = ''d1''" "threshold_type example_red_breach = ''red''"
    by (simp_all add: example_breach_def example_red_breach_def)
  have h: "history (rate_limiter (new_EmailSender new_RateLimiter))
        (device_id example_breach, sensor_id example_breach, lower (threshold_type example_breach))
       = None"
    by (simp add: new_EmailSender_def new_RateLimiter_def)
  note inst = test_mode_envelope [OF t, of example_environment "new_EmailSender new_RateLimiter"
      "[''a@x'', ''b@y'']" "''subject''" "''body''" example_formatter "clock_every 100" Map.empty
      "[example_breach, example_red_breach]" 5 example_breach]
  from inst have one: "smtp_attempts (snd (send_email example_environment test_settings
         (new_EmailSender new_RateLimiter) [''a@x'', ''b@y''] ''subject'' ''body''))
     = [\<lparr>all_recipients = [''test@example.com''], message_subject = ''subject'',
         message_content = ''body''\<rparr>]"
    by (simp add: a new_EmailSender_def)
  from inst have two: "sent_only_to [''test@example.com''] (new_EmailSender new_RateLimiter)
        (snd (snd (process_breaches example_environment test_settings example_formatter
           (clock_every 100) Map.empty (new_EmailSender new_RateLimiter)
           [example_breach, example_red_breach])))"
    and three: "sent_only_to [''test@example.com''] (new_EmailSender new_RateLimiter)
        (snd (retry_job 5 example_environment test_settings (clock_every 100)
           (new_EmailSender new_RateLimiter)))"
    by (simp_all only: a)
  from inst h have four: "fst (snd (process_breaches example_environment test_settings
           example_formatter (clock_every 100) Map.empty (new_EmailSender new_RateLimiter)
           [example_breach]))
        (device_id example_breach, threshold_type example_breach)
       = Some (''sudhamshusuri.2015@gmail.com'', 100)"
    by (simp add: time_time_def clock_every_def)
  from inst ok have five: "(\<forall>p \<in> set [example_breach, example_red_breach].
        \<exists>t. fst (snd (process_breaches example_environment test_settings example_formatter
               (clock_every 100) Map.empty (new_EmailSender new_RateLimiter)
               [example_breach, example_red_breach])) (device_id p, threshold_type p)
             = Some (''sudhamshusuri.2015@gmail.com'', t))
     \<and> Sending_email_with_breaches ''sudhamshusuri.2015@gmail.com''
          (length [example_breach, example_red_breach])
        \<in> set (sender_log (snd (snd (process_breaches example_environment test_settings
             example_formatter (clock_every 100) Map.empty (new_EmailSender new_RateLimiter)
             [example_breach, example_red_breach]))))"
    by (simp only: p) simp
  have m: "example_breach \<in> set [example_breach, example_red_breach]"
    "example_red_breach \<in> set [example_breach, example_red_breach]"
    by simp_all
  from five m(1) have six: "\<exists>t. fst (snd (process_breaches example_environment test_settings
           example_formatter (clock_every 100) Map.empty (new_EmailSender new_RateLimiter)
           [example_breach, example_red_breach])) (''d1'', ''yellow'')
         = Some (''sudhamshusuri.2015@gmail.com'', t)"
    unfolding k(1,2) [symmetric] by blast
  from five m(2) have seven: "\<exists>t. fst (snd (process_breaches example_environment test_settings
           example_formatter (clock_every 100) Map.empty (new_EmailSender new_RateLimiter)
           [example_breach, example_red_breach])) (''d1'', ''red'')
         = Some (''sudhamshusuri.2015@gmail.com'', t)"
    unfolding k(4,5) [symmetric] by blast
  have l: "length [example_breach, example_red_breach] = 2" by simp
  from five have eight: "Sending_email_with_breaches ''sudhamshusuri.2015@gmail.com'' 2
        \<in> set (sender_log (snd (snd (process_breaches example_environment test_settings
             example_formatter (clock_every 100) Map.empty (new_EmailSender new_RateLimiter)
             [example_breach, example_red_breach]))))"
    unfolding l by (rule conjunct2)
  show ?thesis
    by (rule conjI [OF one conjI [OF two conjI [OF three conjI [OF h conjI [OF four
          conjI [OF ok conjI [OF p conjI [OF six conjI [OF seven eight]]]]]]]]])
qed

text \<open>
  C8 as stated fails: in test mode the recipients are looked up all the same. After one
  breach has been processed the emails cache holds the resolved address and the log names
  it, while the one send attempt went to the test address.
\<close>

theorem test_mode_resolves_recipients_counterexample:
  "USE_TEST_EMAIL test_settings
   \<and> fst (snd (process_breaches example_environment test_settings example_formatter (clock_every 100)
         Map.empty (new_EmailSender new_RateLimiter) [example_breach])) (''d1'', ''yellow'')
       = Some (''sudhamshusuri.2015@gmail.com'', 100)
   \<and> Sending_email_to [''sudhamshusuri.2015@gmail.com'']
       \<in> set (sender_log (snd (snd (process_breaches example_environment test_settings
             example_formatter (clock_every 100) Map.empty (new_EmailSender new_RateLimiter)
             [example_breach]))))
   \<and> map all_recipients (smtp_attempts (snd (snd (process_breaches example_environment test_settings
             example_formatter (clock_every 100) Map.empty (new_EmailSender new_RateLimiter)
             [example_breach])))) = [[''test@example.com'']]"
  by (simp add: test_notification_result) (simp add: test_settings_def)

section \<open>Properties of the recipient lookup\<close>

text \<open>
  C7 does not hold of the code. The live \<open>get_emails\<close> returns the same single address
  for every device and every severity, through the cache as well, and never fails; the
  tiered lookup exists only as commented-out code.
\<close>

theorem get_emails_ignores_device_and_severity:
  "original_get_emails did ''yellow'' = ''sudhamshusuri.2015@gmail.com''
   \<and> original_get_emails did ''orange'' = ''sudhamshusuri.2015@gmail.com''
   \<and> original_get_emails did ''red'' = ''sudhamshusuri.2015@gmail.com''
   \<and> fst (get_emails c Map.empty did ttype) = ''sudhamshusuri.2015@gmail.com''"
  by (simp add: original_get_emails_def get_emails_def Let_def split: prod.splits)

end
